theory Spec2Isabelle
  imports Main
begin

section \<open>IntervalAVLMap: the tree as a value\<close>

text \<open>
  The source is one header, \<^verbatim>\<open>IntervalAVLMap.h\<close>. Its \<^verbatim>\<open>CalcMax\<close> stores the children's
  \<^verbatim>\<open>max\<close> in \<^verbatim>\<open>int\<close> locals and passes them with \<^verbatim>\<open>key.hi\<close> to one
  \<^verbatim>\<open>std::max\<close> over an initializer list, so the template only instantiates with
  \<^verbatim>\<open>TKey = int\<close>. Keys are only compared and copied and heights only grow by one per
  level, so no arithmetic here can leave the range of a machine \<^verbatim>\<open>int\<close>; both are
  modelled as \<^typ>\<open>int\<close>.

  A \<^verbatim>\<open>std::unique_ptr<Node>\<close> that owns its pointee alone is the subtree it owns;
  \<^verbatim>\<open>nullptr\<close> is \<open>Null\<close>. Where the source has undefined behaviour the model returns an
  error value instead of a tree.
\<close>

record Key =
  lo :: int
  hi :: int

datatype 'v tree =
  Null
  | Node (key: Key) (val: 'v) (max_hi: int) (height: int) (left: "'v tree") (right: "'v tree")

datatype error =
  NullDeref
  \<comment> \<open>member access through a null pointer\<close>
  | MissingReturn
  \<comment> \<open>control reaches the end of a non-void function without a return statement\<close>
  | DestroyedReachable
  \<comment> \<open>a node is deleted while an owning pointer of the tree still holds its address\<close>
  | DeletedObject nat
  \<comment> \<open>access to the object at an address after it has been deleted\<close>
  | OutOfFuel
  \<comment> \<open>the recursion bound of the store-level functions is used up\<close>

fun bind_err :: "error + 'a \<Rightarrow> ('a \<Rightarrow> error + 'b) \<Rightarrow> error + 'b" where
  "bind_err (Inl e) f = Inl e"
| "bind_err (Inr x) f = f x"

fun set_height :: "int \<Rightarrow> 'v tree \<Rightarrow> 'v tree" where
  "set_height h' Null = Null"
| "set_height h' (Node k v m h l r) = Node k v m h' l r"

fun set_left :: "'v tree \<Rightarrow> 'v tree \<Rightarrow> 'v tree" where
  "set_left l' Null = Null"
| "set_left l' (Node k v m h l r) = Node k v m h l' r"

fun set_right :: "'v tree \<Rightarrow> 'v tree \<Rightarrow> 'v tree" where
  "set_right r' Null = Null"
| "set_right r' (Node k v m h l r) = Node k v m h l r'"

subsection \<open>Height and augmentation\<close>

fun GetHeight :: "'v tree \<Rightarrow> int" where
  "GetHeight Null = - 1"
| "GetHeight (Node k v m h l r) = h"

fun GetMax :: "'v tree \<Rightarrow> int" where
  "GetMax Null = - 1"
| "GetMax (Node k v m h l r) = m"

fun CalcHeight :: "'v tree \<Rightarrow> int" where
  "CalcHeight Null = - 1"
| "CalcHeight (Node k v m h l r) =
     (let leftSubNode = (if l = Null then - 1 else height l);
          rightSubNode = (if r = Null then - 1 else height r)
      in 1 + max leftSubNode rightSubNode)"

fun GetBalance :: "'v tree \<Rightarrow> error + int" where
  "GetBalance Null = Inl NullDeref"
| "GetBalance (Node k v m h l r) = Inr (GetHeight l - GetHeight r)"

fun CalcMax :: "'v tree \<Rightarrow> 'v tree" where
  "CalcMax Null = Null"
| "CalcMax (Node k v m h l r) =
     (let leftMax = (if l = Null then - 1 else max_hi l);
          rightMax = (if r = Null then - 1 else max_hi r)
      in Node k v (max (hi k) (max leftMax rightMax)) h l r)"

subsection \<open>Rotations and rebalancing\<close>

definition RightRotation :: "'v tree \<Rightarrow> error + 'v tree" where
  "RightRotation node =
     (case node of
        Null \<Rightarrow> Inl NullDeref
      | Node k v m h l r \<Rightarrow>
          (case l of
             Null \<Rightarrow> Inl NullDeref
           | Node lk lv lm lh ll lr \<Rightarrow>
               Inr (CalcMax (Node lk lv lm lh ll (CalcMax (Node k v m h lr r))))))"

definition LeftRotation :: "'v tree \<Rightarrow> error + 'v tree" where
  "LeftRotation node =
     (case node of
        Null \<Rightarrow> Inl NullDeref
      | Node k v m h l r \<Rightarrow>
          (case r of
             Null \<Rightarrow> Inl NullDeref
           | Node rk rv rm rh rl rr \<Rightarrow>
               Inr (CalcMax (Node rk rv rm rh (CalcMax (Node k v m h l rl)) rr))))"

text \<open>
  The three height assignments that close both rotating branches of \<^verbatim>\<open>Balance\<close>: the
  node first, from the heights its children still store, then each child that exists.
\<close>

definition Balance_heights :: "'v tree \<Rightarrow> 'v tree" where
  "Balance_heights node =
     (let n1 = set_height (CalcHeight node) node;
          n2 = (if left n1 \<noteq> Null
                then set_left (set_height (CalcHeight (left n1)) (left n1)) n1 else n1);
          n3 = (if right n2 \<noteq> Null
                then set_right (set_height (CalcHeight (right n2)) (right n2)) n2 else n2)
      in n3)"

definition Balance :: "'v tree \<Rightarrow> error + 'v tree" where
  "Balance node =
     bind_err (GetBalance node) (\<lambda>balance.
       if balance < - 1 then
         bind_err (GetBalance (right node)) (\<lambda>subbalance.
           bind_err (if subbalance \<ge> 1
                     then bind_err (RightRotation (right node)) (\<lambda>r'. Inr (set_right r' node))
                     else Inr node) (\<lambda>node1.
             bind_err (LeftRotation node1) (\<lambda>node2. Inr (Balance_heights node2))))
       else if balance > 1 then
         bind_err (GetBalance (left node)) (\<lambda>subbalance.
           bind_err (if subbalance \<le> - 1
                     then bind_err (LeftRotation (left node)) (\<lambda>l'. Inr (set_left l' node))
                     else Inr node) (\<lambda>node1.
             bind_err (RightRotation node1) (\<lambda>node2. Inr (Balance_heights node2))))
       else Inr node)"

subsection \<open>Find\<close>

text \<open>
  Both recursive branches of the three-argument \<^verbatim>\<open>Find\<close> call it again and drop what it
  returns; the function then ends without a return statement.
\<close>

fun Find_rec :: "int \<Rightarrow> int \<Rightarrow> 'v tree \<Rightarrow> error + 'v tree" where
  "Find_rec qlo qhi Null = Inr Null"
| "Find_rec qlo qhi (Node k v m h l r) =
     (if qhi > lo k \<and> qlo < hi k then Inr (Node k v m h l r)
      else if l = Null \<or> max_hi l < qlo
      then bind_err (Find_rec qlo qhi r) (\<lambda>_. Inl MissingReturn)
      else bind_err (Find_rec qlo qhi l) (\<lambda>_. Inl MissingReturn))"

definition Find :: "int \<Rightarrow> int \<Rightarrow> 'v tree \<Rightarrow> error + 'v tree" where
  "Find qlo qhi root = (if root = Null then Inr Null else Find_rec qlo qhi root)"

subsection \<open>Insert\<close>

text \<open>
  The three statements that follow the recursive call of \<^verbatim>\<open>Insert\<close>:
  \<^verbatim>\<open>Balance(node); node->height = CalcHeight(node.get()); CalcMax(node.get());\<close>
\<close>

definition Insert_unwind :: "'v tree \<Rightarrow> error + 'v tree" where
  "Insert_unwind node =
     bind_err (Balance node) (\<lambda>n. Inr (CalcMax (set_height (CalcHeight n) n)))"

fun Insert_rec :: "Key \<Rightarrow> 'v \<Rightarrow> 'v tree \<Rightarrow> error + 'v tree" where
  "Insert_rec k' v' Null = Inr (Node k' v' (hi k') 0 Null Null)"
| "Insert_rec k' v' (Node k v m h l r) =
     (if lo k' < lo k
      then bind_err (Insert_rec k' v' l) (\<lambda>l'. Insert_unwind (Node k v m h l' r))
      else if lo k' > lo k
      then bind_err (Insert_rec k' v' r) (\<lambda>r'. Insert_unwind (Node k v m h l r'))
      else Inr (Node k v' m h l r))"

text \<open>
  The public \<^verbatim>\<open>Insert\<close> returns a raw pointer and leaves the new tree in \<^verbatim>\<open>m_pRoot\<close>.
  The recursive overload returns the very reference it was given, here \<^verbatim>\<open>m_pRoot\<close>, so
  the pointer returned is \<^verbatim>\<open>m_pRoot.get()\<close>: the model returns the node pointed to
  together with the new root.
\<close>

definition Insert :: "int \<Rightarrow> int \<Rightarrow> 'v \<Rightarrow> 'v tree \<Rightarrow> error + ('v tree \<times> 'v tree)" where
  "Insert l h v root =
     (if h < l then Inr (Null, root)
      else bind_err (Insert_rec \<lparr>lo = l, hi = h\<rparr> v root) (\<lambda>root'. Inr (root', root')))"

subsection \<open>Delete\<close>

fun FindMinimum :: "'v tree \<Rightarrow> error + 'v tree" where
  "FindMinimum Null = Inl NullDeref"
| "FindMinimum (Node k v m h l r) =
     (if l = Null then Inr (Node k v m h l r)
      else bind_err (FindMinimum l) (\<lambda>_. Inl MissingReturn))"

text \<open>
  The two statements that end \<^verbatim>\<open>Delete\<close>:
  \<^verbatim>\<open>Balance(node); node->height = CalcHeight(node.get());\<close>
\<close>

definition Delete_unwind :: "'v tree \<Rightarrow> error + 'v tree" where
  "Delete_unwind node =
     bind_err (Balance node) (\<lambda>n. Inr (set_height (CalcHeight n) n))"

text \<open>
  In the two-children branch \<^verbatim>\<open>auto min = *FindMinimum(node->right)\<close> copies the successor
  with \<^verbatim>\<open>Node\<close>'s copy constructor, which builds the copy's \<^verbatim>\<open>left\<close> and \<^verbatim>\<open>right\<close> as
  new \<^verbatim>\<open>unique_ptr\<close>s over the successor's raw child pointers. When the block ends the
  copy is destroyed and deletes whatever those pointers hold. A successor with a child
  has, by then, handed that child to the tree (the recursive \<^verbatim>\<open>Delete\<close> splices it into
  the successor's place), so the child is deleted while the tree still points to it; the
  store-level model below shows the addresses.
\<close>

fun Delete_rec :: "int \<Rightarrow> 'v tree \<Rightarrow> error + 'v tree" where
  "Delete_rec x Null = Inr Null"
| "Delete_rec x (Node k v m h l r) =
     (if lo k < x
      then bind_err (Delete_rec x r) (\<lambda>r'. Delete_unwind (Node k v m h l r'))
      else if x < lo k
      then bind_err (Delete_rec x l) (\<lambda>l'. Delete_unwind (Node k v m h l' r))
      else if h = 0 then Inr Null
      else if r = Null then Delete_unwind l
      else if l = Null then Delete_unwind r
      else bind_err (FindMinimum r) (\<lambda>min.
             bind_err (Delete_rec (lo (key min)) r) (\<lambda>r'.
               if left min \<noteq> Null \<or> right min \<noteq> Null then Inl DestroyedReachable
               else Delete_unwind (Node (key min) (val min) m h l r'))))"

definition Delete :: "int \<Rightarrow> 'v tree \<Rightarrow> error + 'v tree" where
  "Delete x root = Delete_rec x root"

subsection \<open>Stored entries and runs of operations\<close>

fun entries :: "'v tree \<Rightarrow> (Key \<times> 'v) list" where
  "entries Null = []"
| "entries (Node k v m h l r) = entries l @ [(k, v)] @ entries r"

datatype 'v operation = Ins int int 'v | Del int

fun apply_op :: "'v operation \<Rightarrow> 'v tree \<Rightarrow> error + 'v tree" where
  "apply_op (Ins l h v) root = bind_err (Insert l h v root) (\<lambda>res. Inr (snd res))"
| "apply_op (Del x) root = Delete x root"

fun run :: "'v operation list \<Rightarrow> 'v tree \<Rightarrow> error + 'v tree" where
  "run [] root = Inr root"
| "run (x # xs) root = bind_err (apply_op x root) (run xs)"

definition run_entries :: "'v operation list \<Rightarrow> error + (Key \<times> 'v) list" where
  "run_entries xs = bind_err (run xs Null) (\<lambda>t. Inr (entries t))"

section \<open>IntervalAVLMap: the tree in a store\<close>

text \<open>
  The second model keeps the node objects at addresses, so that two \<^verbatim>\<open>unique_ptr\<close>s
  holding the same raw pointer can be told apart from one. \<open>objs s ! a\<close> is the object
  at address \<open>a\<close>, or \<open>None\<close> once it has been deleted; \<^verbatim>\<open>new\<close> hands out the next
  index. A \<^verbatim>\<open>unique_ptr\<close> is the address it holds; the \<^verbatim>\<open>unique_ptr&\<close> parameter of
  \<^verbatim>\<open>Insert\<close>, \<^verbatim>\<open>Delete\<close>, \<^verbatim>\<open>Balance\<close> and the rotations is a \<open>ref\<close>: the root
  pointer of the map or the left or right field of an object. The recursive functions
  take a bound on their depth. A fault carries the store in which it happened.

  In the rotations and in \<^verbatim>\<open>Insert\<close>, every \<^verbatim>\<open>unique_ptr\<close> that is assigned holds
  \<^verbatim>\<open>nullptr\<close> at that moment (it was just moved from or tested), so the assignment
  deletes nothing: \<open>write_ref\<close>. The two assignments \<^verbatim>\<open>node = std::move(tmp)\<close> and
  \<^verbatim>\<open>node.reset()\<close> of \<^verbatim>\<open>Delete\<close> delete the object the pointer held: \<open>reset_ref\<close>.
  \<^verbatim>\<open>node->left = std::move(Insert(key, value, node->left))\<close> moves a pointer onto
  itself, which leaves it as it is.
\<close>

type_synonym addr = nat

record 'v node_obj =
  n_key :: Key
  n_val :: 'v
  n_max :: int
  n_height :: int
  n_left :: "addr option"
  n_right :: "addr option"

record 'v heap =
  objs :: "'v node_obj option list"
  m_pRoot :: "addr option"

datatype ref = RootRef | LeftRef addr | RightRef addr

type_synonym ('v, 'a) hres = "(error \<times> 'v heap) + ('a \<times> 'v heap)"

fun hbind :: "('v, 'a) hres \<Rightarrow> ('a \<Rightarrow> 'v heap \<Rightarrow> ('v, 'b) hres) \<Rightarrow> ('v, 'b) hres" where
  "hbind (Inl f) g = Inl f"
| "hbind (Inr (x, s)) g = g x s"

definition obj_at :: "'v heap \<Rightarrow> addr \<Rightarrow> 'v node_obj option" where
  "obj_at s a = (if a < length (objs s) then objs s ! a else None)"

definition load :: "addr option \<Rightarrow> 'v heap \<Rightarrow> ('v, 'v node_obj) hres" where
  "load p s =
     (case p of
        None \<Rightarrow> Inl (NullDeref, s)
      | Some a \<Rightarrow> (case obj_at s a of
                     None \<Rightarrow> Inl (DeletedObject a, s)
                   | Some obj \<Rightarrow> Inr (obj, s)))"

definition store :: "addr \<Rightarrow> 'v node_obj \<Rightarrow> 'v heap \<Rightarrow> ('v, unit) hres" where
  "store a obj s = Inr ((), s\<lparr>objs := (objs s)[a := Some obj]\<rparr>)"

definition read_ref :: "ref \<Rightarrow> 'v heap \<Rightarrow> ('v, addr option) hres" where
  "read_ref rf s =
     (case rf of
        RootRef \<Rightarrow> Inr (m_pRoot s, s)
      | LeftRef a \<Rightarrow> hbind (load (Some a) s) (\<lambda>obj s. Inr (n_left obj, s))
      | RightRef a \<Rightarrow> hbind (load (Some a) s) (\<lambda>obj s. Inr (n_right obj, s)))"

definition write_ref :: "ref \<Rightarrow> addr option \<Rightarrow> 'v heap \<Rightarrow> ('v, unit) hres" where
  "write_ref rf p s =
     (case rf of
        RootRef \<Rightarrow> Inr ((), s\<lparr>m_pRoot := p\<rparr>)
      | LeftRef a \<Rightarrow> hbind (load (Some a) s) (\<lambda>obj. store a (obj\<lparr>n_left := p\<rparr>))
      | RightRef a \<Rightarrow> hbind (load (Some a) s) (\<lambda>obj. store a (obj\<lparr>n_right := p\<rparr>)))"

fun delete_node :: "nat \<Rightarrow> addr \<Rightarrow> 'v heap \<Rightarrow> ('v, unit) hres" where
  "delete_node 0 a s = Inl (OutOfFuel, s)"
| "delete_node (Suc n) a s =
     hbind (load (Some a) s) (\<lambda>obj s.
     hbind (case n_right obj of None \<Rightarrow> Inr ((), s) | Some r \<Rightarrow> delete_node n r s) (\<lambda>_ s.
     hbind (case n_left obj of None \<Rightarrow> Inr ((), s) | Some l \<Rightarrow> delete_node n l s) (\<lambda>_ s.
       Inr ((), s\<lparr>objs := (objs s)[a := None]\<rparr>))))"

definition reset_ref :: "nat \<Rightarrow> ref \<Rightarrow> addr option \<Rightarrow> 'v heap \<Rightarrow> ('v, unit) hres" where
  "reset_ref n rf p s =
     hbind (read_ref rf s) (\<lambda>old s.
     hbind (write_ref rf p s) (\<lambda>_ s.
       case old of None \<Rightarrow> Inr ((), s) | Some a \<Rightarrow> delete_node n a s))"

definition GetHeight_h :: "addr option \<Rightarrow> 'v heap \<Rightarrow> ('v, int) hres" where
  "GetHeight_h p s =
     (case p of None \<Rightarrow> Inr (- 1, s)
      | Some a \<Rightarrow> hbind (load p s) (\<lambda>obj s. Inr (n_height obj, s)))"

definition GetMax_h :: "addr option \<Rightarrow> 'v heap \<Rightarrow> ('v, int) hres" where
  "GetMax_h p s =
     (case p of None \<Rightarrow> Inr (- 1, s)
      | Some a \<Rightarrow> hbind (load p s) (\<lambda>obj s. Inr (n_max obj, s)))"

definition CalcHeight_h :: "addr option \<Rightarrow> 'v heap \<Rightarrow> ('v, int) hres" where
  "CalcHeight_h p s =
     (case p of None \<Rightarrow> Inr (- 1, s)
      | Some a \<Rightarrow>
          hbind (load p s) (\<lambda>obj s.
          hbind (GetHeight_h (n_left obj) s) (\<lambda>leftSubNode s.
          hbind (GetHeight_h (n_right obj) s) (\<lambda>rightSubNode s.
            Inr (1 + max leftSubNode rightSubNode, s)))))"

definition GetBalance_h :: "addr option \<Rightarrow> 'v heap \<Rightarrow> ('v, int) hres" where
  "GetBalance_h p s =
     hbind (load p s) (\<lambda>obj s.
     hbind (GetHeight_h (n_left obj) s) (\<lambda>hl s.
     hbind (GetHeight_h (n_right obj) s) (\<lambda>hr s. Inr (hl - hr, s))))"

definition CalcMax_h :: "addr option \<Rightarrow> 'v heap \<Rightarrow> ('v, unit) hres" where
  "CalcMax_h p s =
     (case p of None \<Rightarrow> Inr ((), s)
      | Some a \<Rightarrow>
          hbind (load p s) (\<lambda>obj s.
          hbind (GetMax_h (n_left obj) s) (\<lambda>leftMax s.
          hbind (GetMax_h (n_right obj) s) (\<lambda>rightMax.
            store a (obj\<lparr>n_max := max (hi (n_key obj)) (max leftMax rightMax)\<rparr>)))))"

definition assign_height :: "addr option \<Rightarrow> 'v heap \<Rightarrow> ('v, unit) hres" where
  "assign_height p s =
     hbind (CalcHeight_h p s) (\<lambda>h s.
     hbind (load p s) (\<lambda>obj.
       store (the p) (obj\<lparr>n_height := h\<rparr>)))"

definition RightRotation_h :: "ref \<Rightarrow> 'v heap \<Rightarrow> ('v, unit) hres" where
  "RightRotation_h node s =
     hbind (read_ref node s) (\<lambda>temp s.
     hbind (write_ref node None s) (\<lambda>_ s.
     hbind (load temp s) (\<lambda>tobj s.
     hbind (write_ref (LeftRef (the temp)) None s) (\<lambda>_ s.
     hbind (write_ref node (n_left tobj) s) (\<lambda>_ s.
     hbind (read_ref node s) (\<lambda>p s.
     hbind (load p s) (\<lambda>pobj s.
     hbind (write_ref (RightRef (the p)) None s) (\<lambda>_ s.
     hbind (write_ref (LeftRef (the temp)) (n_right pobj) s) (\<lambda>_ s.
     hbind (CalcMax_h temp s) (\<lambda>_ s.
     hbind (write_ref (RightRef (the p)) temp s) (\<lambda>_ s.
       CalcMax_h p s)))))))))))"

definition LeftRotation_h :: "ref \<Rightarrow> 'v heap \<Rightarrow> ('v, unit) hres" where
  "LeftRotation_h node s =
     hbind (read_ref node s) (\<lambda>temp s.
     hbind (write_ref node None s) (\<lambda>_ s.
     hbind (load temp s) (\<lambda>tobj s.
     hbind (write_ref (RightRef (the temp)) None s) (\<lambda>_ s.
     hbind (write_ref node (n_right tobj) s) (\<lambda>_ s.
     hbind (read_ref node s) (\<lambda>p s.
     hbind (load p s) (\<lambda>pobj s.
     hbind (write_ref (LeftRef (the p)) None s) (\<lambda>_ s.
     hbind (write_ref (RightRef (the temp)) (n_left pobj) s) (\<lambda>_ s.
     hbind (CalcMax_h temp s) (\<lambda>_ s.
     hbind (write_ref (LeftRef (the p)) temp s) (\<lambda>_ s.
       CalcMax_h p s)))))))))))"

definition Balance_heights_h :: "ref \<Rightarrow> 'v heap \<Rightarrow> ('v, unit) hres" where
  "Balance_heights_h node s =
     hbind (read_ref node s) (\<lambda>p s.
     hbind (assign_height p s) (\<lambda>_ s.
     hbind (load p s) (\<lambda>obj s.
     hbind (if n_left obj \<noteq> None then assign_height (n_left obj) s else Inr ((), s)) (\<lambda>_ s.
     hbind (load p s) (\<lambda>obj s.
       if n_right obj \<noteq> None then assign_height (n_right obj) s else Inr ((), s))))))"

definition Balance_h :: "ref \<Rightarrow> 'v heap \<Rightarrow> ('v, unit) hres" where
  "Balance_h node s =
     hbind (read_ref node s) (\<lambda>p s.
     hbind (GetBalance_h p s) (\<lambda>balance s.
       if balance < - 1 then
         hbind (load p s) (\<lambda>obj s.
         hbind (GetBalance_h (n_right obj) s) (\<lambda>subbalance s.
         hbind (if subbalance \<ge> 1 then RightRotation_h (RightRef (the p)) s else Inr ((), s)) (\<lambda>_ s.
         hbind (LeftRotation_h node s) (\<lambda>_ s.
           Balance_heights_h node s))))
       else if balance > 1 then
         hbind (load p s) (\<lambda>obj s.
         hbind (GetBalance_h (n_left obj) s) (\<lambda>subbalance s.
         hbind (if subbalance \<le> - 1 then LeftRotation_h (LeftRef (the p)) s else Inr ((), s)) (\<lambda>_ s.
         hbind (RightRotation_h node s) (\<lambda>_ s.
           Balance_heights_h node s))))
       else Inr ((), s)))"

definition make_unique :: "Key \<Rightarrow> 'v \<Rightarrow> 'v heap \<Rightarrow> ('v, addr option) hres" where
  "make_unique k v s =
     Inr (Some (length (objs s)),
          s\<lparr>objs := objs s @ [Some \<lparr>n_key = k, n_val = v, n_max = hi k, n_height = 0,
                                    n_left = None, n_right = None\<rparr>]\<rparr>)"

definition Insert_unwind_h :: "ref \<Rightarrow> 'v heap \<Rightarrow> ('v, unit) hres" where
  "Insert_unwind_h node s =
     hbind (Balance_h node s) (\<lambda>_ s.
     hbind (read_ref node s) (\<lambda>p s.
     hbind (assign_height p s) (\<lambda>_ s.
       CalcMax_h p s)))"

fun Insert_h :: "nat \<Rightarrow> Key \<Rightarrow> 'v \<Rightarrow> ref \<Rightarrow> 'v heap \<Rightarrow> ('v, unit) hres" where
  "Insert_h 0 k v node s = Inl (OutOfFuel, s)"
| "Insert_h (Suc n) k v node s =
     hbind (read_ref node s) (\<lambda>p s.
       case p of
         None \<Rightarrow> hbind (make_unique k v s) (\<lambda>q s. write_ref node q s)
       | Some a \<Rightarrow>
           hbind (load p s) (\<lambda>obj s.
             if lo k < lo (n_key obj)
             then hbind (Insert_h n k v (LeftRef a) s) (\<lambda>_ s. Insert_unwind_h node s)
             else if lo k > lo (n_key obj)
             then hbind (Insert_h n k v (RightRef a) s) (\<lambda>_ s. Insert_unwind_h node s)
             else store a (obj\<lparr>n_val := v\<rparr>) s))"

definition Insert_pub_h :: "nat \<Rightarrow> int \<Rightarrow> int \<Rightarrow> 'v \<Rightarrow> 'v heap \<Rightarrow> ('v, addr option) hres" where
  "Insert_pub_h n l h v s =
     (if h < l then Inr (None, s)
      else hbind (Insert_h n \<lparr>lo = l, hi = h\<rparr> v RootRef s) (\<lambda>_ s. Inr (m_pRoot s, s)))"

fun FindMinimum_h :: "nat \<Rightarrow> ref \<Rightarrow> 'v heap \<Rightarrow> ('v, addr option) hres" where
  "FindMinimum_h 0 node s = Inl (OutOfFuel, s)"
| "FindMinimum_h (Suc n) node s =
     hbind (read_ref node s) (\<lambda>p s.
     hbind (load p s) (\<lambda>obj s.
       if n_left obj = None then Inr (p, s)
       else hbind (FindMinimum_h n (LeftRef (the p)) s) (\<lambda>_ s. Inl (MissingReturn, s))))"

definition Delete_unwind_h :: "ref \<Rightarrow> 'v heap \<Rightarrow> ('v, unit) hres" where
  "Delete_unwind_h node s =
     hbind (Balance_h node s) (\<lambda>_ s.
     hbind (read_ref node s) (\<lambda>p s. assign_height p s))"

fun Delete_h :: "nat \<Rightarrow> int \<Rightarrow> ref \<Rightarrow> 'v heap \<Rightarrow> ('v, unit) hres" where
  "Delete_h 0 x node s = Inl (OutOfFuel, s)"
| "Delete_h (Suc n) x node s =
     hbind (read_ref node s) (\<lambda>p s.
       case p of
         None \<Rightarrow> Inr ((), s)
       | Some a \<Rightarrow>
           hbind (load p s) (\<lambda>obj s.
             if lo (n_key obj) < x
             then hbind (Delete_h n x (RightRef a) s) (\<lambda>_ s. Delete_unwind_h node s)
             else if x < lo (n_key obj)
             then hbind (Delete_h n x (LeftRef a) s) (\<lambda>_ s. Delete_unwind_h node s)
             else if n_height obj = 0 then reset_ref n node None s
             else if n_right obj = None
             then hbind (write_ref (LeftRef a) None s) (\<lambda>_ s.
                  hbind (reset_ref n node (n_left obj) s) (\<lambda>_ s. Delete_unwind_h node s))
             else if n_left obj = None
             then hbind (write_ref (RightRef a) None s) (\<lambda>_ s.
                  hbind (reset_ref n node (n_right obj) s) (\<lambda>_ s. Delete_unwind_h node s))
             else
               hbind (FindMinimum_h n (RightRef a) s) (\<lambda>pmin s.
               hbind (load pmin s) (\<lambda>min s.
               hbind (load p s) (\<lambda>obj s.
               hbind (store a (obj\<lparr>n_key := n_key min, n_val := n_val min\<rparr>) s) (\<lambda>_ s.
               hbind (Delete_h n (lo (n_key min)) (RightRef a) s) (\<lambda>_ s.
               hbind (case n_right min of None \<Rightarrow> Inr ((), s) | Some r \<Rightarrow> delete_node n r s) (\<lambda>_ s.
               hbind (case n_left min of None \<Rightarrow> Inr ((), s) | Some l \<Rightarrow> delete_node n l s) (\<lambda>_ s.
                 Delete_unwind_h node s)))))))))"

fun apply_op_h :: "nat \<Rightarrow> 'v operation \<Rightarrow> 'v heap \<Rightarrow> ('v, unit) hres" where
  "apply_op_h n (Ins l h v) s = hbind (Insert_pub_h n l h v s) (\<lambda>_ s. Inr ((), s))"
| "apply_op_h n (Del x) s = Delete_h n x RootRef s"

fun run_h :: "nat \<Rightarrow> 'v operation list \<Rightarrow> 'v heap \<Rightarrow> ('v, unit) hres" where
  "run_h n [] s = Inr ((), s)"
| "run_h n (x # xs) s = hbind (apply_op_h n x s) (\<lambda>_. run_h n xs)"

definition empty_heap :: "'v heap" where
  "empty_heap = \<lparr>objs = [], m_pRoot = None\<rparr>"

fun tree_at :: "nat \<Rightarrow> 'v heap \<Rightarrow> addr option \<Rightarrow> 'v tree option" where
  "tree_at n s None = Some Null"
| "tree_at 0 s (Some a) = None"
| "tree_at (Suc n) s (Some a) =
     (case obj_at s a of
        None \<Rightarrow> None
      | Some obj \<Rightarrow>
          (case tree_at n s (n_left obj) of
             None \<Rightarrow> None
           | Some l \<Rightarrow>
               (case tree_at n s (n_right obj) of
                  None \<Rightarrow> None
                | Some r \<Rightarrow> Some (Node (n_key obj) (n_val obj) (n_max obj) (n_height obj) l r))))"

subsection \<open>The height invariant\<close>

text \<open>
  Every node stores \<open>1 + max\<close> of the heights its children store (\<open>-1\<close> for an absent
  child), and those two differ by at most one.
\<close>

fun avl :: "'v tree \<Rightarrow> bool" where
  "avl Null = True"
| "avl (Node k v m h l r) =
     (avl l \<and> avl r \<and> \<bar>GetHeight l - GetHeight r\<bar> \<le> 1
      \<and> h = 1 + max (GetHeight l) (GetHeight r))"

subsection \<open>Ordering, balance and overlap as the specification states them\<close>

text \<open>
  \<open>overlaps\<close> is the test of \<^verbatim>\<open>Find\<close> on one stored key. \<open>bst\<close> is the ordering
  invariant: every lo in a node's left subtree is less than the node's lo and every lo in
  its right subtree is greater. \<open>depth\<close> is the height of a subtree counted on the tree
  itself, \<open>-1\<close> for an absent one, and \<open>balanced\<close> the balance invariant on it.
\<close>

definition overlaps :: "int \<Rightarrow> int \<Rightarrow> Key \<Rightarrow> bool" where
  "overlaps qlo qhi k \<longleftrightarrow> qhi > lo k \<and> qlo < hi k"

definition los :: "'v tree \<Rightarrow> int set" where
  "los t = (\<lambda>e. lo (fst e)) ` set (entries t)"

fun bst :: "'v tree \<Rightarrow> bool" where
  "bst Null = True"
| "bst (Node k v m h l r) =
     (bst l \<and> bst r \<and> (\<forall>x \<in> los l. x < lo k) \<and> (\<forall>x \<in> los r. lo k < x))"

fun depth :: "'v tree \<Rightarrow> int" where
  "depth Null = - 1"
| "depth (Node k v m h l r) = 1 + max (depth l) (depth r)"

fun balanced :: "'v tree \<Rightarrow> bool" where
  "balanced Null = True"
| "balanced (Node k v m h l r) = (\<bar>depth l - depth r\<bar> \<le> 1 \<and> balanced l \<and> balanced r)"

text \<open>
  The augmentation invariant with the sentinel the code uses: every node's cached maximum
  is the maximum of its own \<open>hi\<close> and its children's cached maxima, \<open>-1\<close> standing for
  an absent child.
\<close>

fun max_ok :: "'v tree \<Rightarrow> bool" where
  "max_ok Null = True"
| "max_ok (Node k v m h l r) =
     (max_ok l \<and> max_ok r \<and> m = max (hi k) (max (GetMax l) (GetMax r)))"

text \<open>
  The search as the specification words it, each recursive branch returning what it
  finds: the node itself when it overlaps, else the right subtree when the left child is
  absent or its cached maximum is less than the query's lo, else the left subtree.
\<close>

fun Find_spec :: "int \<Rightarrow> int \<Rightarrow> 'v tree \<Rightarrow> 'v tree" where
  "Find_spec qlo qhi Null = Null"
| "Find_spec qlo qhi (Node k v m h l r) =
     (if overlaps qlo qhi k then Node k v m h l r
      else if l = Null \<or> max_hi l < qlo then Find_spec qlo qhi r
      else Find_spec qlo qhi l)"

section \<open>Rewriting the field computations\<close>

text \<open>
  \<^verbatim>\<open>CalcHeight\<close> and \<^verbatim>\<open>CalcMax\<close> read a child's field behind a null test of their own;
  that is what \<^verbatim>\<open>GetHeight\<close> and \<^verbatim>\<open>GetMax\<close> compute.
\<close>

lemma height_or_minus_one: "(if t = Null then - 1 else height t) = GetHeight t"
  by (cases t) simp_all

lemma max_or_minus_one: "(if t = Null then - 1 else max_hi t) = GetMax t"
  by (cases t) simp_all

lemma CalcHeight_Node [simp]:
  "CalcHeight (Node k v m h l r) = 1 + max (GetHeight l) (GetHeight r)"
  by (simp add: Let_def height_or_minus_one)

lemma CalcMax_Node [simp]:
  "CalcMax (Node k v m h l r) = Node k v (max (hi k) (max (GetMax l) (GetMax r))) h l r"
  by (simp add: Let_def max_or_minus_one)

declare CalcHeight.simps(2) [simp del] CalcMax.simps(2) [simp del]

lemma bind_err_Inr_iff: "bind_err m f = Inr y \<longleftrightarrow> (\<exists>x. m = Inr x \<and> f x = Inr y)"
  by (cases m) simp_all

lemma bind_err_Inl_iff:
  "bind_err m f = Inl e \<longleftrightarrow> (m = Inl e \<or> (\<exists>x. m = Inr x \<and> f x = Inl e))"
  by (cases m) simp_all

section \<open>What Balance and Insert return is a node\<close>

text \<open>
  Whatever \<^verbatim>\<open>Balance\<close>, the rotations and the recursive \<^verbatim>\<open>Insert\<close> return is a node.
\<close>

lemma CalcMax_not_Null: "t \<noteq> Null \<Longrightarrow> CalcMax t \<noteq> Null"
  by (cases t) simp_all

lemma Rotation_not_Null:
  "RightRotation t = Inr t' \<Longrightarrow> t' \<noteq> Null" "LeftRotation t = Inr t' \<Longrightarrow> t' \<noteq> Null"
  by (auto simp: RightRotation_def LeftRotation_def Let_def split: tree.splits)

lemma Balance_heights_not_Null: "t \<noteq> Null \<Longrightarrow> Balance_heights t \<noteq> Null"
  by (cases t) (auto simp: Balance_heights_def Let_def)

lemma Balance_not_Null: "Balance t = Inr t' \<Longrightarrow> t' \<noteq> Null"
  by (cases t)
     (auto simp: Balance_def bind_err_Inr_iff
           dest: Rotation_not_Null Balance_heights_not_Null split: if_splits)

lemma Insert_unwind_not_Null: "Insert_unwind n = Inr t' \<Longrightarrow> t' \<noteq> Null"
  by (auto simp: Insert_unwind_def bind_err_Inr_iff dest!: Balance_not_Null
           intro!: CalcMax_not_Null) (metis set_height.elims tree.distinct(1))

lemma Insert_rec_not_Null: "Insert_rec k v t = Inr t' \<Longrightarrow> t' \<noteq> Null"
  by (cases t) (auto simp: bind_err_Inr_iff dest: Insert_unwind_not_Null split: if_splits)

section \<open>The shapes the rebalancing step produces\<close>

lemma Balance_no_rotation:
  "- 1 \<le> GetHeight l - GetHeight r \<Longrightarrow> GetHeight l - GetHeight r \<le> 1 \<Longrightarrow>
   Balance (Node k v m h l r) = Inr (Node k v m h l r)"
  by (simp add: Balance_def)

lemma Balance_left_rotation:
  assumes "GetHeight l - rh < - 1" "GetHeight rl - GetHeight rr < 1"
  shows "Balance (Node k v m h l (Node rk rv rm rh rl rr)) =
     Inr (Node rk rv (max_hi (CalcMax (Node rk rv rm rh (CalcMax (Node k v m h l rl)) rr)))
            (1 + max h (GetHeight rr))
            (set_height (CalcHeight (Node k v m h l rl)) (CalcMax (Node k v m h l rl)))
            (set_height (CalcHeight rr) rr))"
  using assms
  by (cases rr) (simp_all add: Balance_def LeftRotation_def Balance_heights_def Let_def)

lemma Balance_right_left_rotation:
  assumes "GetHeight l - rh < - 1" "ch - GetHeight rr \<ge> 1"
  shows "Balance (Node k v m h l (Node rk rv rm rh (Node ck cv cm ch cl cr) rr)) =
     Inr (Node ck cv
            (max_hi (CalcMax (Node ck cv cm ch (CalcMax (Node k v m h l cl))
                                (CalcMax (Node rk rv rm rh cr rr)))))
            (1 + max h rh)
            (set_height (CalcHeight (Node k v m h l cl)) (CalcMax (Node k v m h l cl)))
            (set_height (CalcHeight (Node rk rv rm rh cr rr)) (CalcMax (Node rk rv rm rh cr rr))))"
  using assms
  by (simp add: Balance_def LeftRotation_def RightRotation_def Balance_heights_def Let_def)

lemma Balance_right_rotation:
  assumes "lh - GetHeight r > 1" "GetHeight ll - GetHeight lr > - 1"
  shows "Balance (Node k v m h (Node lk lv lm lh ll lr) r) =
     Inr (Node lk lv (max_hi (CalcMax (Node lk lv lm lh ll (CalcMax (Node k v m h lr r)))))
            (1 + max (GetHeight ll) h)
            (set_height (CalcHeight ll) ll)
            (set_height (CalcHeight (Node k v m h lr r)) (CalcMax (Node k v m h lr r))))"
  using assms
  by (cases ll) (simp_all add: Balance_def RightRotation_def Balance_heights_def Let_def)

lemma Balance_left_right_rotation:
  assumes "lh - GetHeight r > 1" "GetHeight ll - ch \<le> - 1"
  shows "Balance (Node k v m h (Node lk lv lm lh ll (Node ck cv cm ch cl cr)) r) =
     Inr (Node ck cv
            (max_hi (CalcMax (Node ck cv cm ch (CalcMax (Node lk lv lm lh ll cl))
                                (CalcMax (Node k v m h cr r)))))
            (1 + max lh h)
            (set_height (CalcHeight (Node lk lv lm lh ll cl)) (CalcMax (Node lk lv lm lh ll cl)))
            (set_height (CalcHeight (Node k v m h cr r)) (CalcMax (Node k v m h cr r))))"
  using assms
  by (simp add: Balance_def LeftRotation_def RightRotation_def Balance_heights_def Let_def)


lemma avl_GetHeight_ge: "avl t \<Longrightarrow> - 1 \<le> GetHeight t"
  by (induction t) auto

lemma avl_GetHeight_Null: "avl t \<Longrightarrow> GetHeight t = - 1 \<longleftrightarrow> t = Null"
  by (cases t) (auto dest: avl_GetHeight_ge)

lemma avl_set_height: "avl t \<Longrightarrow> set_height (CalcHeight t) t = t"
  by (cases t) auto

lemma Delete_unwind_avl:
  assumes "avl l" "avl r" "\<bar>GetHeight l - GetHeight r\<bar> \<le> 2"
  shows "\<exists>t'. Delete_unwind (Node k v m h l r) = Inr t' \<and> avl t'
           \<and> (\<bar>GetHeight l - GetHeight r\<bar> \<le> 1 \<longrightarrow>
                  GetHeight t' = 1 + max (GetHeight l) (GetHeight r))
           \<and> (\<bar>GetHeight l - GetHeight r\<bar> = 2 \<longrightarrow>
                  GetHeight t' = max (GetHeight l) (GetHeight r)
                  \<or> GetHeight t' = 1 + max (GetHeight l) (GetHeight r))"
proof -
  consider (none) "- 1 \<le> GetHeight l - GetHeight r" "GetHeight l - GetHeight r \<le> 1"
    | (right) "GetHeight l - GetHeight r = - 2"
    | (left) "GetHeight l - GetHeight r = 2"
    using assms(3) by linarith
  then show ?thesis
  proof cases
    case none
    then show ?thesis using assms by (simp add: Delete_unwind_def Balance_no_rotation)
  next
    case right
    then obtain rk rv rm rh rl rr where r: "r = Node rk rv rm rh rl rr"
      using avl_GetHeight_ge [OF assms(1)] by (cases r) auto
    show ?thesis
    proof (cases "GetHeight rl - GetHeight rr \<ge> 1")
      case False
      with right r assms show ?thesis
        using avl_GetHeight_ge [of l] avl_GetHeight_ge [of rl] avl_GetHeight_ge [of rr]
        by (auto simp: Delete_unwind_def Balance_left_rotation avl_set_height)
    next
      case True
      then obtain ck cv cm ch cl cr where rl: "rl = Node ck cv cm ch cl cr"
        using avl_GetHeight_ge [of rr] assms(2) r by (cases rl) auto
      with True right r assms show ?thesis
        using avl_GetHeight_ge [of l] avl_GetHeight_ge [of cl] avl_GetHeight_ge [of cr]
        by (auto simp: Delete_unwind_def Balance_right_left_rotation avl_set_height)
    qed
  next
    case left
    then obtain lk lv lm lh ll lr where l: "l = Node lk lv lm lh ll lr"
      using avl_GetHeight_ge [OF assms(2)] by (cases l) auto
    show ?thesis
    proof (cases "GetHeight ll - GetHeight lr \<le> - 1")
      case False
      with left l assms show ?thesis
        using avl_GetHeight_ge [of r] avl_GetHeight_ge [of ll] avl_GetHeight_ge [of lr]
        by (auto simp: Delete_unwind_def Balance_right_rotation avl_set_height)
    next
      case True
      then obtain ck cv cm ch cl cr where lr: "lr = Node ck cv cm ch cl cr"
        using avl_GetHeight_ge [of ll] assms(1) l by (cases lr) auto
      with True left l assms show ?thesis
        using avl_GetHeight_ge [of r] avl_GetHeight_ge [of cl] avl_GetHeight_ge [of cr]
        by (auto simp: Delete_unwind_def Balance_left_right_rotation avl_set_height)
    qed
  qed
qed

section \<open>Insert and Delete keep the height invariant\<close>

lemma avl_CalcMax: "avl (CalcMax t) = avl t"
  by (cases t) simp_all

lemma GetHeight_CalcMax: "GetHeight (CalcMax t) = GetHeight t"
  by (cases t) simp_all

lemma Insert_unwind_Delete_unwind:
  "Insert_unwind n = bind_err (Delete_unwind n) (\<lambda>t. Inr (CalcMax t))"
  by (cases "Balance n") (simp_all add: Insert_unwind_def Delete_unwind_def)

lemma Insert_unwind_avl:
  assumes "avl l" "avl r" "\<bar>GetHeight l - GetHeight r\<bar> \<le> 2"
  shows "\<exists>t'. Insert_unwind (Node k v m h l r) = Inr t' \<and> avl t'
           \<and> (\<bar>GetHeight l - GetHeight r\<bar> \<le> 1 \<longrightarrow>
                  GetHeight t' = 1 + max (GetHeight l) (GetHeight r))
           \<and> (\<bar>GetHeight l - GetHeight r\<bar> = 2 \<longrightarrow>
                  GetHeight t' = max (GetHeight l) (GetHeight r)
                  \<or> GetHeight t' = 1 + max (GetHeight l) (GetHeight r))"
proof -
  from Delete_unwind_avl [OF assms, of k v m h] obtain t' where
    t': "Delete_unwind (Node k v m h l r) = Inr t'" "avl t'"
      "\<bar>GetHeight l - GetHeight r\<bar> \<le> 1 \<longrightarrow> GetHeight t' = 1 + max (GetHeight l) (GetHeight r)"
      "\<bar>GetHeight l - GetHeight r\<bar> = 2 \<longrightarrow>
         GetHeight t' = max (GetHeight l) (GetHeight r)
         \<or> GetHeight t' = 1 + max (GetHeight l) (GetHeight r)"
    by blast
  have "Insert_unwind (Node k v m h l r) = Inr (CalcMax t')"
    by (simp add: Insert_unwind_Delete_unwind t'(1))
  with t'(2-4) show ?thesis
    by (simp add: avl_CalcMax GetHeight_CalcMax)
qed

lemma Insert_rec_avl:
  "avl t \<Longrightarrow> \<exists>t'. Insert_rec k' v' t = Inr t' \<and> avl t'
      \<and> (GetHeight t' = GetHeight t \<or> GetHeight t' = GetHeight t + 1)"
proof (induction t)
  case Null
  then show ?case by simp
next
  case (Node k v m h l r)
  from Node.prems have al: "avl l" and ar: "avl r"
    and bal: "\<bar>GetHeight l - GetHeight r\<bar> \<le> 1"
    and h: "h = 1 + max (GetHeight l) (GetHeight r)"
    by simp_all
  consider (L) "lo k' < lo k" | (R) "\<not> lo k' < lo k" "lo k' > lo k"
    | (E) "\<not> lo k' < lo k" "\<not> lo k' > lo k"
    by blast
  then show ?case
  proof cases
    case L
    from Node.IH(1) [OF al] obtain l' where
      l': "Insert_rec k' v' l = Inr l'" "avl l'"
        "GetHeight l' = GetHeight l \<or> GetHeight l' = GetHeight l + 1"
      by blast
    have "\<bar>GetHeight l' - GetHeight r\<bar> \<le> 2" using l'(3) bal by linarith
    from Insert_unwind_avl [OF l'(2) ar this, of k v m h] obtain t' where
      "Insert_unwind (Node k v m h l' r) = Inr t'" "avl t'"
      "\<bar>GetHeight l' - GetHeight r\<bar> \<le> 1 \<longrightarrow> GetHeight t' = 1 + max (GetHeight l') (GetHeight r)"
      "\<bar>GetHeight l' - GetHeight r\<bar> = 2 \<longrightarrow>
         GetHeight t' = max (GetHeight l') (GetHeight r)
         \<or> GetHeight t' = 1 + max (GetHeight l') (GetHeight r)"
      by blast
    with L l' bal h show ?thesis
      by (simp add: max_def split: if_splits) linarith+
  next
    case R
    from Node.IH(2) [OF ar] obtain r' where
      r': "Insert_rec k' v' r = Inr r'" "avl r'"
        "GetHeight r' = GetHeight r \<or> GetHeight r' = GetHeight r + 1"
      by blast
    have "\<bar>GetHeight l - GetHeight r'\<bar> \<le> 2" using r'(3) bal by linarith
    from Insert_unwind_avl [OF al r'(2) this, of k v m h] obtain t' where
      "Insert_unwind (Node k v m h l r') = Inr t'" "avl t'"
      "\<bar>GetHeight l - GetHeight r'\<bar> \<le> 1 \<longrightarrow> GetHeight t' = 1 + max (GetHeight l) (GetHeight r')"
      "\<bar>GetHeight l - GetHeight r'\<bar> = 2 \<longrightarrow>
         GetHeight t' = max (GetHeight l) (GetHeight r')
         \<or> GetHeight t' = 1 + max (GetHeight l) (GetHeight r')"
      by blast
    with R r' bal h show ?thesis
      by (simp add: max_def split: if_splits) linarith+
  next
    case E
    with Node.prems show ?thesis by simp
  qed
qed

lemma FindMinimum_Inr: "FindMinimum t = Inr mn \<Longrightarrow> mn = t \<and> t \<noteq> Null \<and> left t = Null"
  by (cases t) (auto simp: bind_err_Inr_iff split: if_splits)

lemma Delete_unwind_height:
  assumes "avl l" "avl r" "h = 1 + max (GetHeight l) (GetHeight r0)"
    "\<bar>GetHeight l - GetHeight r0\<bar> \<le> 1" "GetHeight r = GetHeight r0 \<or> GetHeight r = GetHeight r0 - 1"
  shows "\<exists>t'. Delete_unwind (Node k v m h' l r) = Inr t' \<and> avl t'
           \<and> (GetHeight t' = h \<or> GetHeight t' = h - 1)"
proof -
  have "\<bar>GetHeight l - GetHeight r\<bar> \<le> 2" using assms(4,5) by linarith
  from Delete_unwind_avl [OF assms(1,2) this, of k v m h'] obtain t' where
    "Delete_unwind (Node k v m h' l r) = Inr t'" "avl t'"
    "\<bar>GetHeight l - GetHeight r\<bar> \<le> 1 \<longrightarrow> GetHeight t' = 1 + max (GetHeight l) (GetHeight r)"
    "\<bar>GetHeight l - GetHeight r\<bar> = 2 \<longrightarrow>
       GetHeight t' = max (GetHeight l) (GetHeight r)
       \<or> GetHeight t' = 1 + max (GetHeight l) (GetHeight r)"
    by blast
  with assms(3-5) show ?thesis
    by (simp add: max_def split: if_splits) linarith+
qed

lemma Delete_unwind_height_left:
  assumes "avl l" "avl r" "h = 1 + max (GetHeight l0) (GetHeight r)"
    "\<bar>GetHeight l0 - GetHeight r\<bar> \<le> 1" "GetHeight l = GetHeight l0 \<or> GetHeight l = GetHeight l0 - 1"
  shows "\<exists>t'. Delete_unwind (Node k v m h' l r) = Inr t' \<and> avl t'
           \<and> (GetHeight t' = h \<or> GetHeight t' = h - 1)"
proof -
  have "\<bar>GetHeight l - GetHeight r\<bar> \<le> 2" using assms(4,5) by linarith
  from Delete_unwind_avl [OF assms(1,2) this, of k v m h'] obtain t' where
    "Delete_unwind (Node k v m h' l r) = Inr t'" "avl t'"
    "\<bar>GetHeight l - GetHeight r\<bar> \<le> 1 \<longrightarrow> GetHeight t' = 1 + max (GetHeight l) (GetHeight r)"
    "\<bar>GetHeight l - GetHeight r\<bar> = 2 \<longrightarrow>
       GetHeight t' = max (GetHeight l) (GetHeight r)
       \<or> GetHeight t' = 1 + max (GetHeight l) (GetHeight r)"
    by blast
  with assms(3-5) show ?thesis
    by (simp add: max_def split: if_splits) linarith+
qed

lemma Delete_unwind_avl_id: "avl t \<Longrightarrow> t \<noteq> Null \<Longrightarrow> Delete_unwind t = Inr t"
  by (cases t) (auto simp: Delete_unwind_def Balance_no_rotation)

lemma Delete_rec_avl:
  "avl t \<Longrightarrow> Delete_rec x t = Inr t' \<Longrightarrow>
     avl t' \<and> (GetHeight t' = GetHeight t \<or> GetHeight t' = GetHeight t - 1)"
proof (induction t arbitrary: x t')
  case Null
  then show ?case by simp
next
  case (Node k v m h l r)
  from Node.prems(1) have al: "avl l" and ar: "avl r"
    and bal: "\<bar>GetHeight l - GetHeight r\<bar> \<le> 1"
    and h: "h = 1 + max (GetHeight l) (GetHeight r)"
    by simp_all
  consider (R) "lo k < x" | (L) "\<not> lo k < x" "x < lo k"
    | (leaf) "\<not> lo k < x" "\<not> x < lo k" "h = 0"
    | (onlyl) "\<not> lo k < x" "\<not> x < lo k" "h \<noteq> 0" "r = Null"
    | (onlyr) "\<not> lo k < x" "\<not> x < lo k" "h \<noteq> 0" "r \<noteq> Null" "l = Null"
    | (two) "\<not> lo k < x" "\<not> x < lo k" "h \<noteq> 0" "r \<noteq> Null" "l \<noteq> Null"
    by blast
  then show ?case
  proof cases
    case R
    with Node.prems(2) obtain r' where
      r': "Delete_rec x r = Inr r'" "Delete_unwind (Node k v m h l r') = Inr t'"
      by (auto simp: bind_err_Inr_iff)
    from Node.IH(2) [OF ar r'(1)] have "avl r'"
      "GetHeight r' = GetHeight r \<or> GetHeight r' = GetHeight r - 1" by simp_all
    from Delete_unwind_height [OF al this(1) h bal this(2), of k v m h] r'(2)
    show ?thesis by simp
  next
    case L
    with Node.prems(2) obtain l' where
      l': "Delete_rec x l = Inr l'" "Delete_unwind (Node k v m h l' r) = Inr t'"
      by (auto simp: bind_err_Inr_iff)
    from Node.IH(1) [OF al l'(1)] have "avl l'"
      "GetHeight l' = GetHeight l \<or> GetHeight l' = GetHeight l - 1" by simp_all
    from Delete_unwind_height_left [OF this(1) ar h bal this(2), of k v m h] l'(2)
    show ?thesis by simp
  next
    case leaf
    with Node.prems(2) show ?thesis by simp
  next
    case onlyl
    with h bal have "l \<noteq> Null" "GetHeight l = h - 1"
      using avl_GetHeight_Null [OF al] by auto
    with onlyl Node.prems(2) al show ?thesis
      by (simp add: Delete_unwind_avl_id)
  next
    case onlyr
    with h bal have "GetHeight r = h - 1" by auto
    with onlyr Node.prems(2) ar show ?thesis
      by (simp add: Delete_unwind_avl_id)
  next
    case two
    with Node.prems(2) obtain mn r' where
      mn: "FindMinimum r = Inr mn" "Delete_rec (lo (key mn)) r = Inr r'"
        "Delete_unwind (Node (key mn) (val mn) m h l r') = Inr t'"
      by (auto simp: bind_err_Inr_iff split: if_splits)
    from Node.IH(2) [OF ar mn(2)] have "avl r'"
      "GetHeight r' = GetHeight r \<or> GetHeight r' = GetHeight r - 1" by simp_all
    from Delete_unwind_height [OF al this(1) h bal this(2), of "key mn" "val mn" m h] mn(3)
    show ?thesis by simp
  qed
qed

lemma Insert_avl:
  "avl t \<Longrightarrow> \<not> h < l \<Longrightarrow> \<exists>t'. Insert l h v t = Inr (t', t') \<and> avl t' \<and> t' \<noteq> Null"
  using Insert_rec_avl [of t "\<lparr>lo = l, hi = h\<rparr>" v]
  by (auto simp: Insert_def dest: Insert_rec_not_Null)

lemma apply_op_avl: "avl t \<Longrightarrow> apply_op x t = Inr t' \<Longrightarrow> avl t'"
proof (cases x)
  case (Ins l h v)
  assume "avl t" "apply_op x t = Inr t'"
  then show "avl t'"
    using Ins Insert_avl [of t h l v]
    by (cases "h < l") (auto simp: bind_err_Inr_iff Insert_def)
next
  case (Del k)
  assume "avl t" "apply_op x t = Inr t'"
  then show "avl t'" using Del Delete_rec_avl [of t k t'] by (simp add: Delete_def)
qed

lemma run_avl: "avl t \<Longrightarrow> run xs t = Inr t' \<Longrightarrow> avl t'"
  by (induction xs arbitrary: t) (auto simp: bind_err_Inr_iff dest: apply_op_avl)

section \<open>The stored entries under rotation, Insert and Delete\<close>

lemma los_simps [simp]:
  "los Null = {}"
  "los (Node k v m h l r) = insert (lo k) (los l \<union> los r)"
  by (auto simp: los_def)

lemma entries_set_height [simp]: "entries (set_height h t) = entries t"
  by (cases t) simp_all

lemma entries_CalcMax [simp]: "entries (CalcMax t) = entries t"
  by (cases t) simp_all

lemma entries_Balance_heights [simp]: "entries (Balance_heights t) = entries t"
proof (cases t)
  case Null
  then show ?thesis by (simp add: Balance_heights_def)
next
  case (Node k v m h l r)
  then show ?thesis
    by (cases l; cases r) (simp_all add: Balance_heights_def)
qed

lemma entries_Rotation:
  "RightRotation t = Inr t' \<Longrightarrow> entries t' = entries t"
  "LeftRotation t = Inr t' \<Longrightarrow> entries t' = entries t"
  by (auto simp: RightRotation_def LeftRotation_def split: tree.splits)

lemma entries_Balance: "Balance t = Inr t' \<Longrightarrow> entries t' = entries t"
proof (cases t)
  case Null
  then show "Balance t = Inr t' \<Longrightarrow> entries t' = entries t" by (simp add: Balance_def)
next
  case (Node k v m h l r)
  have sr: "entries (set_right r' t) = entries l @ [(k, v)] @ entries r'" for r'
    by (simp add: Node)
  have sl: "entries (set_left l' t) = entries l' @ [(k, v)] @ entries r" for l'
    by (simp add: Node)
  assume "Balance t = Inr t'"
  then show "entries t' = entries t"
    using Node
    by (auto simp: Balance_def bind_err_Inr_iff sr sl split: if_splits
             dest!: entries_Rotation)
qed

lemma bst_sorted: "bst t \<longleftrightarrow> sorted_wrt (<) (map (\<lambda>e. lo (fst e)) (entries t))"
proof (induction t)
  case Null
  then show ?case by simp
next
  case (Node k v m h l r)
  have "lo (fst a) < lo (fst b)"
    if "\<forall>x \<in> set (entries l). lo (fst x) < lo k" "\<forall>x \<in> set (entries r). lo k < lo (fst x)"
      "a \<in> set (entries l)" "b \<in> set (entries r)" for a b
    using that by (meson less_trans)
  with Node show ?case
    by (auto simp: sorted_wrt_append los_def)
qed

lemma bst_entries_cong: "entries t' = entries t \<Longrightarrow> bst t' = bst t"
  by (simp add: bst_sorted)

lemma los_entries_cong: "entries t' = entries t \<Longrightarrow> los t' = los t"
  by (simp add: los_def)

lemma entries_Insert_unwind: "Insert_unwind t = Inr t' \<Longrightarrow> entries t' = entries t"
  by (auto simp: Insert_unwind_def bind_err_Inr_iff dest: entries_Balance)

lemma entries_Delete_unwind: "Delete_unwind t = Inr t' \<Longrightarrow> entries t' = entries t"
  by (auto simp: Delete_unwind_def bind_err_Inr_iff dest: entries_Balance)

lemma Insert_rec_entries:
  "Insert_rec k' v' t = Inr t' \<Longrightarrow>
     los t' = insert (lo k') (los t)
     \<and> (\<exists>k0. lo k0 = lo k' \<and> (k0, v') \<in> set (entries t'))
     \<and> (lo k' \<notin> los t \<longrightarrow> set (entries t') = insert (k', v') (set (entries t)))
     \<and> (bst t \<longrightarrow> bst t')"
proof (induction t arbitrary: t')
  case Null
  then show ?case by auto
next
  case (Node k v m h l r)
  consider (L) "lo k' < lo k" | (R) "\<not> lo k' < lo k" "lo k' > lo k"
    | (E) "\<not> lo k' < lo k" "\<not> lo k' > lo k"
    by blast
  then show ?case
  proof cases
    case L
    with Node.prems obtain l' where
      l': "Insert_rec k' v' l = Inr l'" "Insert_unwind (Node k v m h l' r) = Inr t'"
      by (auto simp: bind_err_Inr_iff)
    note IH = Node.IH(1) [OF l'(1)]
    have e: "entries t' = entries (Node k v m h l' r)" by (rule entries_Insert_unwind [OF l'(2)])
    have "bst t' = bst (Node k v m h l' r)" "los t' = los (Node k v m h l' r)"
      using e by (simp_all add: bst_entries_cong los_entries_cong del: bst.simps los_simps)
    with IH L e show ?thesis by (auto simp: los_def)
  next
    case R
    with Node.prems obtain r' where
      r': "Insert_rec k' v' r = Inr r'" "Insert_unwind (Node k v m h l r') = Inr t'"
      by (auto simp: bind_err_Inr_iff)
    note IH = Node.IH(2) [OF r'(1)]
    have e: "entries t' = entries (Node k v m h l r')" by (rule entries_Insert_unwind [OF r'(2)])
    have "bst t' = bst (Node k v m h l r')" "los t' = los (Node k v m h l r')"
      using e by (simp_all add: bst_entries_cong los_entries_cong del: bst.simps los_simps)
    with IH R e show ?thesis by (auto simp: los_def)
  next
    case E
    then have "lo k' = lo k" by simp
    with E Node.prems show ?thesis by (auto simp: los_def)
  qed
qed

lemma avl_depth: "avl t \<Longrightarrow> GetHeight t = depth t \<and> balanced t"
  by (induction t) auto

lemma avl_leaf: "avl (Node k v m 0 l r) \<Longrightarrow> l = Null \<and> r = Null"
  using avl_GetHeight_ge [of l] avl_GetHeight_ge [of r] avl_GetHeight_Null [of l]
    avl_GetHeight_Null [of r]
  by (auto simp: max_def split: if_splits)

lemma Delete_rec_entries:
  "avl t \<Longrightarrow> bst t \<Longrightarrow> Delete_rec x t = Inr t' \<Longrightarrow>
     entries t' = filter (\<lambda>e. lo (fst e) \<noteq> x) (entries t)"
proof (induction t arbitrary: x t')
  case Null
  then show ?case by simp
next
  case (Node k v m h l r)
  from Node.prems(1) have al: "avl l" and ar: "avl r" by simp_all
  from Node.prems(2) have bl: "bst l" and br: "bst r"
    and ll: "\<forall>e \<in> set (entries l). lo (fst e) < lo k"
    and rr: "\<forall>e \<in> set (entries r). lo k < lo (fst e)"
    by (auto simp: los_def)
  consider (R) "lo k < x" | (L) "\<not> lo k < x" "x < lo k"
    | (leaf) "\<not> lo k < x" "\<not> x < lo k" "h = 0"
    | (onlyl) "\<not> lo k < x" "\<not> x < lo k" "h \<noteq> 0" "r = Null"
    | (onlyr) "\<not> lo k < x" "\<not> x < lo k" "h \<noteq> 0" "r \<noteq> Null" "l = Null"
    | (two) "\<not> lo k < x" "\<not> x < lo k" "h \<noteq> 0" "r \<noteq> Null" "l \<noteq> Null"
    by blast
  then show ?case
  proof cases
    case R
    with Node.prems(3) obtain r' where
      r': "Delete_rec x r = Inr r'" "Delete_unwind (Node k v m h l r') = Inr t'"
      by (auto simp: bind_err_Inr_iff)
    have "filter (\<lambda>e. lo (fst e) \<noteq> x) (entries l) = entries l"
      using ll R by (intro filter_True) auto
    with Node.IH(2) [OF ar br r'(1)] entries_Delete_unwind [OF r'(2)] R
    show ?thesis by simp
  next
    case L
    with Node.prems(3) obtain l' where
      l': "Delete_rec x l = Inr l'" "Delete_unwind (Node k v m h l' r) = Inr t'"
      by (auto simp: bind_err_Inr_iff)
    have "filter (\<lambda>e. lo (fst e) \<noteq> x) (entries r) = entries r"
      using rr L by (intro filter_True) auto
    with Node.IH(1) [OF al bl l'(1)] entries_Delete_unwind [OF l'(2)] L
    show ?thesis by simp
  next
    case leaf
    with Node.prems(1) have "avl (Node k v m 0 l r)" by simp
    then have "l = Null \<and> r = Null" by (rule avl_leaf)
    then have "l = Null" "r = Null" by simp_all
    with leaf Node.prems(3) show ?thesis by auto
  next
    case onlyl
    have "filter (\<lambda>e. lo (fst e) \<noteq> x) (entries l) = entries l"
      using ll onlyl by (intro filter_True) auto
    with onlyl Node.prems(3) entries_Delete_unwind [of l t'] show ?thesis by auto
  next
    case onlyr
    have "filter (\<lambda>e. lo (fst e) \<noteq> x) (entries r) = entries r"
      using rr onlyr by (intro filter_True) auto
    with onlyr Node.prems(3) entries_Delete_unwind [of r t'] show ?thesis by auto
  next
    case two
    with Node.prems(3) obtain mn r' where
      mn: "FindMinimum r = Inr mn" "Delete_rec (lo (key mn)) r = Inr r'"
        "left mn = Null" "right mn = Null"
        "Delete_unwind (Node (key mn) (val mn) m h l r') = Inr t'"
      by (auto simp: bind_err_Inr_iff split: if_splits)
    from FindMinimum_Inr [OF mn(1)] mn(3,4) obtain rk rv rm rh where
      r: "r = Node rk rv rm rh Null Null" "mn = r"
      by (cases r) auto
    have "entries r' = []"
      using Node.IH(2) [OF ar br mn(2)] r by simp
    moreover have "filter (\<lambda>e. lo (fst e) \<noteq> x) (entries l) = entries l"
      using ll two by (intro filter_True) auto
    ultimately show ?thesis
      using entries_Delete_unwind [OF mn(5)] r two rr by auto
  qed
qed

lemma sorted_wrt_map_filter:
  "sorted_wrt P (map f xs) \<Longrightarrow> sorted_wrt P (map f (filter Q xs))"
  by (induction xs) auto

lemma Delete_rec_bst: "avl t \<Longrightarrow> bst t \<Longrightarrow> Delete_rec x t = Inr t' \<Longrightarrow> bst t'"
  using Delete_rec_entries [of t x t']
  by (simp add: bst_sorted sorted_wrt_map_filter)

lemma Delete_rec_absent: "avl t \<Longrightarrow> x \<notin> los t \<Longrightarrow> Delete_rec x t = Inr t"
proof (induction t)
  case Null
  then show ?case by simp
next
  case (Node k v m h l r)
  then show ?case
    using Delete_unwind_avl_id [of "Node k v m h l r"] by auto
qed

lemma apply_op_bst: "avl t \<Longrightarrow> bst t \<Longrightarrow> apply_op x t = Inr t' \<Longrightarrow> bst t'"
proof (cases x)
  case (Ins l h v)
  assume "avl t" "bst t" "apply_op x t = Inr t'"
  then show "bst t'"
    using Ins Insert_rec_entries [of "\<lparr>lo = l, hi = h\<rparr>" v t t']
    by (cases "h < l") (auto simp: bind_err_Inr_iff Insert_def)
next
  case (Del k)
  assume "avl t" "bst t" "apply_op x t = Inr t'"
  then show "bst t'" using Del Delete_rec_bst [of t k t'] by (simp add: Delete_def)
qed

lemma run_avl_bst: "avl t \<Longrightarrow> bst t \<Longrightarrow> run xs t = Inr t' \<Longrightarrow> avl t' \<and> bst t'"
proof (induction xs arbitrary: t)
  case Nil
  then show ?case by simp
next
  case (Cons x xs)
  from Cons.prems(3) obtain t1 where t1: "apply_op x t = Inr t1" "run xs t1 = Inr t'"
    by (auto simp: bind_err_Inr_iff)
  from apply_op_avl [OF Cons.prems(1) t1(1)] apply_op_bst [OF Cons.prems(1,2) t1(1)]
  show ?case using Cons.IH t1(2) by blast
qed

text \<open>
  On every run from the empty map that meets no undefined behaviour, every node is
  balanced, stores its exact height and is ordered by lo.
\<close>

lemma run_invariants:
  "run xs Null = Inr t \<Longrightarrow> balanced t \<and> bst t \<and> avl t"
  using run_avl_bst [of Null xs t] avl_depth [of t] by simp

section \<open>The cached maximum under Insert\<close>

lemma GetMax_set_height [simp]: "GetMax (set_height h t) = GetMax t"
  by (cases t) simp_all

lemma max_ok_set_height [simp]: "max_ok (set_height h t) = max_ok t"
  by (cases t) simp_all

lemma GetMax_Balance_heights [simp]: "GetMax (Balance_heights t) = GetMax t"
proof (cases t)
  case Null
  then show ?thesis by (simp add: Balance_heights_def)
next
  case (Node k v m h l r)
  then show ?thesis by (cases l; cases r) (simp_all add: Balance_heights_def)
qed

lemma max_ok_Balance_heights [simp]: "max_ok (Balance_heights t) = max_ok t"
proof (cases t)
  case Null
  then show ?thesis by (simp add: Balance_heights_def)
next
  case (Node k v m h l r)
  then show ?thesis by (cases l; cases r) (simp_all add: Balance_heights_def)
qed

lemma max_ok_LeftRotation:
  "LeftRotation (Node k v m h l r) = Inr t' \<Longrightarrow> max_ok l \<Longrightarrow> max_ok r \<Longrightarrow> max_ok t'"
  by (cases r) (auto simp: LeftRotation_def)

lemma max_ok_RightRotation:
  "RightRotation (Node k v m h l r) = Inr t' \<Longrightarrow> max_ok l \<Longrightarrow> max_ok r \<Longrightarrow> max_ok t'"
  by (cases l) (auto simp: RightRotation_def)

lemma max_ok_Rotation_child:
  "RightRotation t = Inr t' \<Longrightarrow> max_ok t \<Longrightarrow> max_ok t'"
  "LeftRotation t = Inr t' \<Longrightarrow> max_ok t \<Longrightarrow> max_ok t'"
proof -
  show "RightRotation t = Inr t' \<Longrightarrow> max_ok t \<Longrightarrow> max_ok t'"
    by (cases t) (simp add: RightRotation_def, simp add: max_ok_RightRotation)
  show "LeftRotation t = Inr t' \<Longrightarrow> max_ok t \<Longrightarrow> max_ok t'"
    by (cases t) (simp add: LeftRotation_def, simp add: max_ok_LeftRotation)
qed

lemma Balance_Node:
  "Balance (Node k v m h l r) =
     (if GetHeight l - GetHeight r < - 1 then
        bind_err (GetBalance r) (\<lambda>sub.
          if sub \<ge> 1
          then bind_err (RightRotation r) (\<lambda>r'.
                 bind_err (LeftRotation (Node k v m h l r')) (\<lambda>n2. Inr (Balance_heights n2)))
          else bind_err (LeftRotation (Node k v m h l r)) (\<lambda>n2. Inr (Balance_heights n2)))
      else if GetHeight l - GetHeight r > 1 then
        bind_err (GetBalance l) (\<lambda>sub.
          if sub \<le> - 1
          then bind_err (LeftRotation l) (\<lambda>l'.
                 bind_err (RightRotation (Node k v m h l' r)) (\<lambda>n2. Inr (Balance_heights n2)))
          else bind_err (RightRotation (Node k v m h l r)) (\<lambda>n2. Inr (Balance_heights n2)))
      else Inr (Node k v m h l r))"
proof -
  have a: "bind_err (if c then bind_err x f else Inr y) g
        = (if c then bind_err x (\<lambda>z. bind_err (f z) g) else g y)"
    for c and x :: "error + 'b" and f :: "'b \<Rightarrow> error + 'c" and y and g :: "'c \<Rightarrow> error + 'd"
    by (cases x) simp_all
  show ?thesis
    by (simp add: Balance_def a cong: if_cong)
qed

lemma Balance_Inr_cases:
  assumes "Balance (Node k v m h l r) = Inr t'"
  shows "t' = Node k v m h l r
    \<or> (\<exists>r1 n2. (r1 = r \<or> RightRotation r = Inr r1)
          \<and> LeftRotation (Node k v m h l r1) = Inr n2 \<and> t' = Balance_heights n2)
    \<or> (\<exists>l1 n2. (l1 = l \<or> LeftRotation l = Inr l1)
          \<and> RightRotation (Node k v m h l1 r) = Inr n2 \<and> t' = Balance_heights n2)"
  using assms unfolding Balance_Node
  by (auto simp: bind_err_Inr_iff split: if_splits)

lemma max_ok_Balance:
  assumes "Balance (Node k v m h l r) = Inr t'" "max_ok l" "max_ok r"
  shows "\<exists>bk bv bm bh bl br. t' = Node bk bv bm bh bl br \<and> max_ok bl \<and> max_ok br"
proof -
  have ok: "\<exists>bk bv bm bh bl br. Balance_heights n2 = Node bk bv bm bh bl br \<and> max_ok bl \<and> max_ok br"
    if "max_ok n2" "n2 \<noteq> Null" for n2 :: "'a tree"
  proof -
    from that have "max_ok (Balance_heights n2)" "Balance_heights n2 \<noteq> Null"
      by (simp_all add: Balance_heights_not_Null)
    then show ?thesis by (cases "Balance_heights n2") auto
  qed
  from Balance_Inr_cases [OF assms(1)] consider
    (N) "t' = Node k v m h l r"
    | (R) r1 n2 where "r1 = r \<or> RightRotation r = Inr r1"
        "LeftRotation (Node k v m h l r1) = Inr n2" "t' = Balance_heights n2"
    | (L) l1 n2 where "l1 = l \<or> LeftRotation l = Inr l1"
        "RightRotation (Node k v m h l1 r) = Inr n2" "t' = Balance_heights n2"
    by blast
  then show ?thesis
  proof cases
    case N
    with assms(2,3) show ?thesis by simp
  next
    case R
    from R(1) assms(3) have "max_ok r1" using max_ok_Rotation_child(1) by blast
    from max_ok_LeftRotation [OF R(2) assms(2) this] Rotation_not_Null(2) [OF R(2)] R(3)
    show ?thesis using ok by simp
  next
    case L
    from L(1) assms(2) have "max_ok l1" using max_ok_Rotation_child(2) by blast
    from max_ok_RightRotation [OF L(2) this assms(3)] Rotation_not_Null(1) [OF L(2)] L(3)
    show ?thesis using ok by simp
  qed
qed

lemma max_ok_Insert_unwind:
  assumes "Insert_unwind (Node k v m h l r) = Inr t'" "max_ok l" "max_ok r"
  shows "max_ok t'"
proof -
  from assms(1) obtain b where b: "Balance (Node k v m h l r) = Inr b"
    "t' = CalcMax (set_height (CalcHeight b) b)"
    by (auto simp: Insert_unwind_def bind_err_Inr_iff)
  from max_ok_Balance [OF b(1) assms(2,3)] obtain bk bv bm bh bl br where
    "b = Node bk bv bm bh bl br" "max_ok bl" "max_ok br"
    by blast
  with b(2) show ?thesis by simp
qed

lemma max_ok_Insert_rec:
  "max_ok t \<Longrightarrow> - 1 \<le> hi k' \<Longrightarrow> Insert_rec k' v' t = Inr t' \<Longrightarrow> max_ok t'"
proof (induction t arbitrary: t')
  case Null
  then show ?case by auto
next
  case (Node k v m h l r)
  from Node.prems(1) have ml: "max_ok l" and mr: "max_ok r"
    and m: "m = max (hi k) (max (GetMax l) (GetMax r))"
    by simp_all
  consider (L) "lo k' < lo k" | (R) "\<not> lo k' < lo k" "lo k' > lo k"
    | (E) "\<not> lo k' < lo k" "\<not> lo k' > lo k"
    by blast
  then show ?case
  proof cases
    case L
    with Node.prems(3) obtain l' where
      l': "Insert_rec k' v' l = Inr l'" "Insert_unwind (Node k v m h l' r) = Inr t'"
      by (auto simp: bind_err_Inr_iff)
    from Node.IH(1) [OF ml Node.prems(2) l'(1)] have "max_ok l'" .
    from max_ok_Insert_unwind [OF l'(2) this mr] show ?thesis .
  next
    case R
    with Node.prems(3) obtain r' where
      r': "Insert_rec k' v' r = Inr r'" "Insert_unwind (Node k v m h l r') = Inr t'"
      by (auto simp: bind_err_Inr_iff)
    from Node.IH(2) [OF mr Node.prems(2) r'(1)] have "max_ok r'" .
    from max_ok_Insert_unwind [OF r'(2) ml this] show ?thesis .
  next
    case E
    with Node.prems(3) ml mr m show ?thesis by auto
  qed
qed

text \<open>
  Insertion keeps the augmentation: on a map built by insertions alone, with no \<open>hi\<close>
  below the sentinel \<open>-1\<close>, every node's cached maximum is the maximum of its own
  \<open>hi\<close> and its children's cached maxima.
\<close>

lemma Insert_only_max_ok:
  "\<forall>x \<in> set xs. \<exists>l h v. x = Ins l h v \<and> - 1 \<le> h \<Longrightarrow>
   max_ok t \<Longrightarrow> run xs t = Inr t' \<Longrightarrow> max_ok t'"
proof (induction xs arbitrary: t)
  case Nil
  then show ?case by simp
next
  case (Cons x xs)
  from Cons.prems(1) obtain l h v where x: "x = Ins l h v" "- 1 \<le> h" by auto
  from Cons.prems(3) x obtain t1 where t1: "apply_op (Ins l h v) t = Inr t1" "run xs t1 = Inr t'"
    by (auto simp: bind_err_Inr_iff)
  have "max_ok t1"
  proof (cases "h < l")
    case True
    with t1(1) Cons.prems(2) show ?thesis by (simp add: Insert_def)
  next
    case False
    with t1(1) have "Insert_rec \<lparr>lo = l, hi = h\<rparr> v t = Inr t1"
      by (auto simp: Insert_def bind_err_Inr_iff)
    from max_ok_Insert_rec [OF Cons.prems(2) _ this] x(2) show ?thesis by simp
  qed
  with Cons.IH [OF _ this t1(2)] Cons.prems(1) show ?case by simp
qed

section \<open>Update of an existing low endpoint\<close>

text \<open>
  C5 (as amended). Starting from an empty map, inserting lo=5, hi=10 with value A and
  then lo=5, hi=20 with value B leaves exactly one node; its lo is 5 and its value is B,
  and it still holds hi=10 with cached maximum 10: the equal-key branch of \<^verbatim>\<open>Insert\<close>
  assigns the value only.
\<close>

theorem Insert_same_lo_keeps_interval:
  "run [Ins 5 10 a, Ins 5 20 b] Null = Inr (Node \<lparr>lo = 5, hi = 10\<rparr> b 10 0 Null Null)
   \<and> run_entries [Ins 5 10 a, Ins 5 20 b] = Inr [(\<lparr>lo = 5, hi = 10\<rparr>, b)]"
  by (simp add: Insert_def Delete_def run_entries_def)

text \<open>
  C5 (as stated) fails: after the two insertions the stored entries are not the single
  entry \<open>((5, 20), B)\<close>.
\<close>

theorem Insert_same_lo_counterexample:
  "run_entries [Ins 5 10 ''A'', Ins 5 20 ''B''] \<noteq> Inr [(\<lparr>lo = 5, hi = 20\<rparr>, ''B'')]"
  by (simp add: Insert_def Delete_def run_entries_def)

section \<open>Rejected intervals\<close>

text \<open>
  C7. For every tree state and every lo, hi, v with \<open>hi < lo\<close>, \<^verbatim>\<open>Insert\<close> returns the null
  pointer and leaves \<^verbatim>\<open>m_pRoot\<close> as it was, whatever the tree holds; and the null pointer
  with any root at all is what \<^verbatim>\<open>Insert\<close> returns only when \<open>hi < lo\<close>.
\<close>

theorem Insert_rejects_inverted_interval:
  "(h < l \<longrightarrow> Insert l h v root = Inr (Null, root))
   \<and> ((\<exists>root'. Insert l h v root = Inr (Null, root')) \<longleftrightarrow> h < l)"
proof -
  have "Insert l h v root \<noteq> Inr (Null, root')" if "\<not> h < l" for root'
    using that by (auto simp: Insert_def bind_err_Inr_iff dest: Insert_rec_not_Null)
  then show ?thesis by (auto simp: Insert_def)
qed

theorem Insert_rejects_inverted_interval_witness:
  "(5::int) < 10
   \<and> Insert 10 5 ''X'' (Node \<lparr>lo = 1, hi = 3\<rparr> ''a'' 3 0 Null Null)
       = Inr (Null, Node \<lparr>lo = 1, hi = 3\<rparr> ''a'' 3 0 Null Null)
   \<and> (\<exists>root'. Insert 10 5 ''X'' (Node \<lparr>lo = 1, hi = 3\<rparr> ''a'' 3 0 Null Null)
                  = Inr (Null, root'))"
  using Insert_rejects_inverted_interval
          [of 5 10 "''X''" "Node \<lparr>lo = 1, hi = 3\<rparr> ''a'' 3 0 Null Null"]
  by simp

section \<open>The pointer Insert returns\<close>

text \<open>
  C10. In every state the map reaches from empty, the public \<^verbatim>\<open>Insert\<close> returns the null
  pointer, with the root untouched, when \<open>hi < lo\<close>; otherwise it completes and returns a
  non-null pointer to the node that is then the root of the tree. That node need not hold
  the inserted lo: inserting \<open>[10, 20)\<close> into the map holding \<open>[5, 6)\<close> returns the node
  with lo 5.
\<close>

theorem Insert_returns_root:
  assumes "run ops Null = Inr root"
  shows "(h < l \<longrightarrow> Insert l h v root = Inr (Null, root))
    \<and> (\<not> h < l \<longrightarrow> (\<exists>root'. Insert l h v root = Inr (root', root') \<and> root' \<noteq> Null))
    \<and> run [Ins 5 6 v] Null = Inr (Node \<lparr>lo = 5, hi = 6\<rparr> v 6 0 Null Null)
    \<and> Insert 10 20 v (Node \<lparr>lo = 5, hi = 6\<rparr> v 6 0 Null Null)
        = Inr (Node \<lparr>lo = 5, hi = 6\<rparr> v 20 1 Null (Node \<lparr>lo = 10, hi = 20\<rparr> v 20 0 Null Null),
               Node \<lparr>lo = 5, hi = 6\<rparr> v 20 1 Null (Node \<lparr>lo = 10, hi = 20\<rparr> v 20 0 Null Null))"
proof -
  have "avl root" using run_avl [OF _ assms] by simp
  then have "\<not> h < l \<longrightarrow> (\<exists>root'. Insert l h v root = Inr (root', root') \<and> root' \<noteq> Null)"
    using Insert_avl [of root h l v] by blast
  moreover have "h < l \<longrightarrow> Insert l h v root = Inr (Null, root)"
    by (simp add: Insert_def)
  moreover have "run [Ins 5 6 v] Null = Inr (Node \<lparr>lo = 5, hi = 6\<rparr> v 6 0 Null Null)"
    by (simp add: Insert_def)
  moreover have "Insert 10 20 v (Node \<lparr>lo = 5, hi = 6\<rparr> v 6 0 Null Null)
        = Inr (Node \<lparr>lo = 5, hi = 6\<rparr> v 20 1 Null (Node \<lparr>lo = 10, hi = 20\<rparr> v 20 0 Null Null),
               Node \<lparr>lo = 5, hi = 6\<rparr> v 20 1 Null (Node \<lparr>lo = 10, hi = 20\<rparr> v 20 0 Null Null))"
    by (simp add: Insert_def Insert_unwind_def Balance_no_rotation)
  ultimately show ?thesis by blast
qed

theorem Insert_returns_root_witness:
  "run [Ins 5 6 ''a'', Ins 3 4 ''b''] Null
     = Inr (Node \<lparr>lo = 5, hi = 6\<rparr> ''a'' 6 1 (Node \<lparr>lo = 3, hi = 4\<rparr> ''b'' 4 0 Null Null) Null)
   \<and> (9::int) < 10 \<and> \<not> (20::int) < 10
   \<and> Insert 10 9 ''c'' (Node \<lparr>lo = 5, hi = 6\<rparr> ''a'' 6 1
                            (Node \<lparr>lo = 3, hi = 4\<rparr> ''b'' 4 0 Null Null) Null)
       = Inr (Null, Node \<lparr>lo = 5, hi = 6\<rparr> ''a'' 6 1
                      (Node \<lparr>lo = 3, hi = 4\<rparr> ''b'' 4 0 Null Null) Null)
   \<and> (\<exists>root'. Insert 10 20 ''c'' (Node \<lparr>lo = 5, hi = 6\<rparr> ''a'' 6 1
                            (Node \<lparr>lo = 3, hi = 4\<rparr> ''b'' 4 0 Null Null) Null)
                  = Inr (root', root') \<and> root' \<noteq> Null)"
proof -
  have r: "run [Ins 5 6 ''a'', Ins 3 4 ''b''] Null
     = Inr (Node \<lparr>lo = 5, hi = 6\<rparr> ''a'' 6 1 (Node \<lparr>lo = 3, hi = 4\<rparr> ''b'' 4 0 Null Null) Null)"
    by (simp add: Insert_def Insert_unwind_def Balance_no_rotation)
  show ?thesis
    using r Insert_returns_root [OF r, of 9 10 "''c''"] Insert_returns_root [OF r, of 20 10 "''c''"]
    by simp
qed

section \<open>What the rebalancing step does, case by case\<close>

lemma avl_heavy_right:
  assumes "avl l" "avl r" "GetHeight l - GetHeight r < - 1"
  shows "r \<noteq> Null \<and> (GetHeight (left r) - GetHeight (right r) \<ge> 1 \<longrightarrow> left r \<noteq> Null)"
proof -
  from assms(3) avl_GetHeight_ge [OF assms(1)] have r: "r \<noteq> Null" by (cases r) auto
  then obtain rk rv rm rh rl rr where "r = Node rk rv rm rh rl rr" by (cases r) auto
  with assms(2) avl_GetHeight_ge [of rr] show ?thesis by (cases rl) auto
qed

lemma avl_heavy_left:
  assumes "avl l" "avl r" "GetHeight l - GetHeight r > 1"
  shows "l \<noteq> Null \<and> (GetHeight (left l) - GetHeight (right l) \<le> - 1 \<longrightarrow> right l \<noteq> Null)"
proof -
  from assms(3) avl_GetHeight_ge [OF assms(2)] have "l \<noteq> Null" by (cases l) auto
  then obtain lk lv lm lh ll lr where "l = Node lk lv lm lh ll lr" by (cases l) auto
  with assms(1) avl_GetHeight_ge [of ll] show ?thesis by (cases lr) auto
qed

lemma LeftRotation_Node:
  "LeftRotation (Node k v m h l (Node rk rv rm rh rl rr)) =
     Inr (CalcMax (Node rk rv rm rh (CalcMax (Node k v m h l rl)) rr))"
  by (simp add: LeftRotation_def)

lemma RightRotation_Node:
  "RightRotation (Node k v m h (Node lk lv lm lh ll lr) r) =
     Inr (CalcMax (Node lk lv lm lh ll (CalcMax (Node k v m h lr r))))"
  by (simp add: RightRotation_def)

text \<open>
  C8 (as amended). For a node passed to \<^verbatim>\<open>Balance\<close>, with balance factor
  \<open>GetHeight left - GetHeight right\<close>:
  \<^item> in \<open>[-1, 1]\<close> the node is returned as it is;
  \<^item> below \<open>-1\<close>, the right child is rotated right first when its own balance factor is
    at least 1, and the node is then rotated left; otherwise the node is rotated left only;
  \<^item> above 1, the left child is rotated left first when its own balance factor is at most
    \<open>-1\<close>, and the node is then rotated right; otherwise the node is rotated right only;
  \<^item> a rotation itself recomputes the cached maximum of the node it moves down and then of
    the node it moves up, and leaves every stored height as it was;
  \<^item> after its last rotation \<^verbatim>\<open>Balance\<close> assigns three heights: the new subtree root's,
    from the heights its two children stored before the rebalancing, then each child's,
    from that child's own children. The children's heights are therefore right when
    \<^verbatim>\<open>Balance\<close> returns; the root's is recomputed by \<^verbatim>\<open>Insert\<close> and \<^verbatim>\<open>Delete\<close> in their
    next statement.
  When both subtrees of the node satisfy the height invariant, the heavy child, and in the
  double-rotation cases its inner child, exist, so that one of the five cases applies.
\<close>

theorem Balance_rotation_cases:
  "(- 1 \<le> GetHeight l - GetHeight r \<and> GetHeight l - GetHeight r \<le> 1 \<longrightarrow>
      Balance (Node k v m h l r) = Inr (Node k v m h l r))
   \<and> (GetHeight l - rh < - 1 \<and> GetHeight rl - GetHeight rr < 1 \<longrightarrow>
      Balance (Node k v m h l (Node rk rv rm rh rl rr)) =
        Inr (Node rk rv (max_hi (CalcMax (Node rk rv rm rh (CalcMax (Node k v m h l rl)) rr)))
               (1 + max h (GetHeight rr))
               (set_height (CalcHeight (Node k v m h l rl)) (CalcMax (Node k v m h l rl)))
               (set_height (CalcHeight rr) rr)))
   \<and> (GetHeight l - rh < - 1 \<and> ch - GetHeight rr \<ge> 1 \<longrightarrow>
      Balance (Node k v m h l (Node rk rv rm rh (Node ck cv cm ch cl cr) rr)) =
        Inr (Node ck cv
               (max_hi (CalcMax (Node ck cv cm ch (CalcMax (Node k v m h l cl))
                                   (CalcMax (Node rk rv rm rh cr rr)))))
               (1 + max h rh)
               (set_height (CalcHeight (Node k v m h l cl)) (CalcMax (Node k v m h l cl)))
               (set_height (CalcHeight (Node rk rv rm rh cr rr))
                  (CalcMax (Node rk rv rm rh cr rr)))))
   \<and> (lh - GetHeight r > 1 \<and> GetHeight ll - GetHeight lr > - 1 \<longrightarrow>
      Balance (Node k v m h (Node lk lv lm lh ll lr) r) =
        Inr (Node lk lv (max_hi (CalcMax (Node lk lv lm lh ll (CalcMax (Node k v m h lr r)))))
               (1 + max (GetHeight ll) h)
               (set_height (CalcHeight ll) ll)
               (set_height (CalcHeight (Node k v m h lr r)) (CalcMax (Node k v m h lr r)))))
   \<and> (lh - GetHeight r > 1 \<and> GetHeight ll - ch \<le> - 1 \<longrightarrow>
      Balance (Node k v m h (Node lk lv lm lh ll (Node ck cv cm ch cl cr)) r) =
        Inr (Node ck cv
               (max_hi (CalcMax (Node ck cv cm ch (CalcMax (Node lk lv lm lh ll cl))
                                   (CalcMax (Node k v m h cr r)))))
               (1 + max lh h)
               (set_height (CalcHeight (Node lk lv lm lh ll cl))
                  (CalcMax (Node lk lv lm lh ll cl)))
               (set_height (CalcHeight (Node k v m h cr r)) (CalcMax (Node k v m h cr r)))))
   \<and> LeftRotation (Node k v m h l (Node rk rv rm rh rl rr)) =
        Inr (Node rk rv (max (hi rk) (max (max (hi k) (max (GetMax l) (GetMax rl))) (GetMax rr))) rh
               (Node k v (max (hi k) (max (GetMax l) (GetMax rl))) h l rl) rr)
   \<and> RightRotation (Node k v m h (Node lk lv lm lh ll lr) r) =
        Inr (Node lk lv (max (hi lk) (max (GetMax ll) (max (hi k) (max (GetMax lr) (GetMax r))))) lh
               ll (Node k v (max (hi k) (max (GetMax lr) (GetMax r))) h lr r))
   \<and> (avl l \<and> avl r \<and> GetHeight l - GetHeight r < - 1 \<longrightarrow>
        r \<noteq> Null \<and> (GetHeight (left r) - GetHeight (right r) \<ge> 1 \<longrightarrow> left r \<noteq> Null))
   \<and> (avl l \<and> avl r \<and> GetHeight l - GetHeight r > 1 \<longrightarrow>
        l \<noteq> Null \<and> (GetHeight (left l) - GetHeight (right l) \<le> - 1 \<longrightarrow> right l \<noteq> Null))"
proof -
  have none: "- 1 \<le> GetHeight l - GetHeight r \<and> GetHeight l - GetHeight r \<le> 1 \<longrightarrow>
      Balance (Node k v m h l r) = Inr (Node k v m h l r)"
    by (simp add: Balance_no_rotation)
  have rots: "LeftRotation (Node k v m h l (Node rk rv rm rh rl rr)) =
        Inr (Node rk rv (max (hi rk) (max (max (hi k) (max (GetMax l) (GetMax rl))) (GetMax rr))) rh
               (Node k v (max (hi k) (max (GetMax l) (GetMax rl))) h l rl) rr)"
     "RightRotation (Node k v m h (Node lk lv lm lh ll lr) r) =
        Inr (Node lk lv (max (hi lk) (max (GetMax ll) (max (hi k) (max (GetMax lr) (GetMax r))))) lh
               ll (Node k v (max (hi k) (max (GetMax lr) (GetMax r))) h lr r))"
    by (simp_all add: LeftRotation_Node RightRotation_Node)
  show ?thesis
    using none rots Balance_left_rotation [of l rh rl rr k v m h rk rv rm]
      Balance_right_left_rotation [of l rh ch rr k v m h rk rv rm ck cv cm cl cr]
      Balance_right_rotation [of lh r ll lr k v m h lk lv lm]
      Balance_left_right_rotation [of lh r ll ch k v m h lk lv lm ck cv cm cl cr]
      avl_heavy_right [of l r] avl_heavy_left [of l r]
    by blast
qed

theorem Balance_rotation_cases_witness:
  "Balance (Node \<lparr>lo = 1, hi = 2\<rparr> ''a'' 3 1 Null (Node \<lparr>lo = 2, hi = 3\<rparr> ''b'' 3 0 Null Null))
     = Inr (Node \<lparr>lo = 1, hi = 2\<rparr> ''a'' 3 1 Null (Node \<lparr>lo = 2, hi = 3\<rparr> ''b'' 3 0 Null Null))
   \<and> Balance (Node \<lparr>lo = 1, hi = 2\<rparr> ''a'' 3 1 Null
                (Node \<lparr>lo = 2, hi = 3\<rparr> ''b'' 4 1 Null
                   (Node \<lparr>lo = 3, hi = 4\<rparr> ''c'' 4 0 Null Null)))
       = Inr (Node \<lparr>lo = 2, hi = 3\<rparr> ''b'' 4 2
                (Node \<lparr>lo = 1, hi = 2\<rparr> ''a'' 2 0 Null Null)
                (Node \<lparr>lo = 3, hi = 4\<rparr> ''c'' 4 0 Null Null))
   \<and> Balance (Node \<lparr>lo = 1, hi = 2\<rparr> ''a'' 3 1 Null
                (Node \<lparr>lo = 3, hi = 4\<rparr> ''c'' 4 1
                   (Node \<lparr>lo = 2, hi = 9\<rparr> ''b'' 9 0 Null Null) Null))
       = Inr (Node \<lparr>lo = 2, hi = 9\<rparr> ''b'' 9 2
                (Node \<lparr>lo = 1, hi = 2\<rparr> ''a'' 2 0 Null Null)
                (Node \<lparr>lo = 3, hi = 4\<rparr> ''c'' 4 0 Null Null))
   \<and> Balance (Node \<lparr>lo = 3, hi = 4\<rparr> ''c'' 4 1
                (Node \<lparr>lo = 2, hi = 3\<rparr> ''b'' 3 1
                   (Node \<lparr>lo = 1, hi = 2\<rparr> ''a'' 2 0 Null Null) Null) Null)
       = Inr (Node \<lparr>lo = 2, hi = 3\<rparr> ''b'' 4 2
                (Node \<lparr>lo = 1, hi = 2\<rparr> ''a'' 2 0 Null Null)
                (Node \<lparr>lo = 3, hi = 4\<rparr> ''c'' 4 0 Null Null))
   \<and> Balance (Node \<lparr>lo = 3, hi = 4\<rparr> ''c'' 4 1
                (Node \<lparr>lo = 1, hi = 2\<rparr> ''a'' 9 1 Null
                   (Node \<lparr>lo = 2, hi = 9\<rparr> ''b'' 9 0 Null Null)) Null)
       = Inr (Node \<lparr>lo = 2, hi = 9\<rparr> ''b'' 9 2
                (Node \<lparr>lo = 1, hi = 2\<rparr> ''a'' 2 0 Null Null)
                (Node \<lparr>lo = 3, hi = 4\<rparr> ''c'' 4 0 Null Null))
   \<and> avl (Node \<lparr>lo = 2, hi = 3\<rparr> ''b'' 4 1 Null (Node \<lparr>lo = 3, hi = 4\<rparr> ''c'' 4 0 Null Null))
   \<and> avl (Node \<lparr>lo = 1, hi = 2\<rparr> ''a'' 9 1 Null (Node \<lparr>lo = 2, hi = 9\<rparr> ''b'' 9 0 Null Null))"
  using
    Balance_rotation_cases [where k = "\<lparr>lo = 1, hi = 2\<rparr>" and v = "''a''" and m = 3 and h = 1
      and l = Null and r = "Node \<lparr>lo = 2, hi = 3\<rparr> ''b'' 3 0 Null Null"]
    Balance_rotation_cases [where k = "\<lparr>lo = 1, hi = 2\<rparr>" and v = "''a''" and m = 3 and h = 1
      and l = Null and rk = "\<lparr>lo = 2, hi = 3\<rparr>" and rv = "''b''" and rm = 4 and rh = 1
      and rl = Null and rr = "Node \<lparr>lo = 3, hi = 4\<rparr> ''c'' 4 0 Null Null"
      and r = "Node \<lparr>lo = 2, hi = 3\<rparr> ''b'' 4 1 Null (Node \<lparr>lo = 3, hi = 4\<rparr> ''c'' 4 0 Null Null)"]
    Balance_rotation_cases [where k = "\<lparr>lo = 1, hi = 2\<rparr>" and v = "''a''" and m = 3 and h = 1
      and l = Null and rk = "\<lparr>lo = 3, hi = 4\<rparr>" and rv = "''c''" and rm = 4 and rh = 1
      and ck = "\<lparr>lo = 2, hi = 9\<rparr>" and cv = "''b''" and cm = 9 and ch = 0
      and cl = Null and cr = Null and rr = Null]
    Balance_rotation_cases [where k = "\<lparr>lo = 3, hi = 4\<rparr>" and v = "''c''" and m = 4 and h = 1
      and r = Null and lk = "\<lparr>lo = 2, hi = 3\<rparr>" and lv = "''b''" and lm = 3 and lh = 1
      and ll = "Node \<lparr>lo = 1, hi = 2\<rparr> ''a'' 2 0 Null Null" and lr = Null]
    Balance_rotation_cases [where k = "\<lparr>lo = 3, hi = 4\<rparr>" and v = "''c''" and m = 4 and h = 1
      and r = Null and lk = "\<lparr>lo = 1, hi = 2\<rparr>" and lv = "''a''" and lm = 9 and lh = 1
      and ll = Null and ck = "\<lparr>lo = 2, hi = 9\<rparr>" and cv = "''b''" and cm = 9 and ch = 0
      and cl = Null and cr = Null
      and l = "Node \<lparr>lo = 1, hi = 2\<rparr> ''a'' 9 1 Null (Node \<lparr>lo = 2, hi = 9\<rparr> ''b'' 9 0 Null Null)"]
  by simp

text \<open>
  C8 (as stated) fails on its last clause. \<^verbatim>\<open>Insert\<close> of lo 3 into the map holding lo 1 and
  lo 2 passes the chain below to \<^verbatim>\<open>Balance\<close>. \<^verbatim>\<open>LeftRotation\<close> returns to \<^verbatim>\<open>Balance\<close>
  with the node it moved down still storing height 1 over no children, and \<^verbatim>\<open>Balance\<close>
  returns to \<^verbatim>\<open>Insert\<close> with the node it moved up storing height 2 over two leaves.
\<close>

theorem Balance_rotation_heights_counterexample:
  "LeftRotation (Node \<lparr>lo = 1, hi = 2\<rparr> ''a'' 3 1 Null
                  (Node \<lparr>lo = 2, hi = 3\<rparr> ''b'' 4 1 Null
                     (Node \<lparr>lo = 3, hi = 4\<rparr> ''c'' 4 0 Null Null)))
     = Inr (Node \<lparr>lo = 2, hi = 3\<rparr> ''b'' 4 1
              (Node \<lparr>lo = 1, hi = 2\<rparr> ''a'' 2 1 Null Null)
              (Node \<lparr>lo = 3, hi = 4\<rparr> ''c'' 4 0 Null Null))
   \<and> height (Node \<lparr>lo = 1, hi = 2\<rparr> ''a'' 2 1 Null Null)
       \<noteq> CalcHeight (Node \<lparr>lo = 1, hi = 2\<rparr> ''a'' 2 1 Null Null)
   \<and> Balance (Node \<lparr>lo = 1, hi = 2\<rparr> ''a'' 3 1 Null
                (Node \<lparr>lo = 2, hi = 3\<rparr> ''b'' 4 1 Null
                   (Node \<lparr>lo = 3, hi = 4\<rparr> ''c'' 4 0 Null Null)))
       = Inr (Node \<lparr>lo = 2, hi = 3\<rparr> ''b'' 4 2
                (Node \<lparr>lo = 1, hi = 2\<rparr> ''a'' 2 0 Null Null)
                (Node \<lparr>lo = 3, hi = 4\<rparr> ''c'' 4 0 Null Null))
   \<and> height (Node \<lparr>lo = 2, hi = 3\<rparr> ''b'' 4 2
                (Node \<lparr>lo = 1, hi = 2\<rparr> ''a'' 2 0 Null Null)
                (Node \<lparr>lo = 3, hi = 4\<rparr> ''c'' 4 0 Null Null))
       \<noteq> CalcHeight (Node \<lparr>lo = 2, hi = 3\<rparr> ''b'' 4 2
                (Node \<lparr>lo = 1, hi = 2\<rparr> ''a'' 2 0 Null Null)
                (Node \<lparr>lo = 3, hi = 4\<rparr> ''c'' 4 0 Null Null))"
  by (simp add: LeftRotation_Node Balance_left_rotation)

section \<open>The cached maximum after a deletion\<close>

text \<open>
  C2, at the input where it fails. Insert \<open>[5, 6)\<close>, insert \<open>[3, 100)\<close>, delete 3. The
  deleted leaf was the left child of the root; on the unwind \<^verbatim>\<open>Delete\<close> calls
  \<^verbatim>\<open>Balance\<close> and recomputes the height, but not \<^verbatim>\<open>CalcMax\<close>: the root, now alone with
  \<open>hi = 6\<close>, keeps the cached maximum 100.
\<close>

theorem Delete_leaves_stale_max:
  "run [Ins 5 6 ''a'', Ins 3 100 ''b'', Del 3] Null
     = Inr (Node \<lparr>lo = 5, hi = 6\<rparr> ''a'' 100 0 Null Null)"
  by (simp add: Insert_def Delete_def Insert_unwind_def Delete_unwind_def Balance_def)

text \<open>
  \<^verbatim>\<open>CalcMax\<close> takes \<open>-1\<close> for an absent child, which is below every \<open>hi\<close> only while
  no \<open>hi\<close> is negative: with \<open>[-10, -5)\<close> at the root and \<open>[-20, -15)\<close> below it the
  root's cached maximum is \<open>-1\<close>.
\<close>

lemma CalcMax_sentinel_above_negative_hi:
  "run [Ins (- 10) (- 5) ''a'', Ins (- 20) (- 15) ''b''] Null
     = Inr (Node \<lparr>lo = - 10, hi = - 5\<rparr> ''a'' (- 1) 1
              (Node \<lparr>lo = - 20, hi = - 15\<rparr> ''b'' (- 15) 0 Null Null) Null)"
  by (simp add: Insert_def Insert_unwind_def Balance_def)

section \<open>The value Find returns\<close>

text \<open>
  \<^verbatim>\<open>Find\<close> reaches a return statement in two cases only: the tree is empty, or the root's
  own interval overlaps the query. Everywhere else it runs into one of the two recursive
  branches, whose result is dropped.
\<close>

lemma Find_rec_error: "Find_rec qlo qhi t = Inl e \<Longrightarrow> e = MissingReturn"
  by (induction t) (auto split: if_splits elim!: bind_err.elims)

lemma Find_rec_drops: "bind_err (Find_rec qlo qhi t) (\<lambda>_. Inl MissingReturn) = Inl MissingReturn"
  by (cases "Find_rec qlo qhi t") (simp_all add: Find_rec_error)

lemma Find_returns:
  "Find qlo qhi t =
     (if t = Null then Inr Null
      else if qhi > lo (key t) \<and> qlo < hi (key t) then Inr t
      else Inl MissingReturn)"
  by (cases t) (simp_all add: Find_def Find_rec_drops)

text \<open>
  Where \<^verbatim>\<open>Find\<close> does return, it returns what the search of the specification returns;
  the two part on every tree whose root does not overlap the query.
\<close>

lemma Find_agrees_with_Find_spec: "Find qlo qhi t = Inr r \<Longrightarrow> r = Find_spec qlo qhi t"
  by (cases t) (auto simp: Find_returns overlaps_def split: if_splits)

text \<open>
  C4, at the input where it fails. With \<open>[5, 6)\<close> at the root and \<open>[10, 20)\<close> as its right
  child, the query \<open>(10, 20)\<close> misses the root, finds no left child and calls \<^verbatim>\<open>Find\<close> on
  the right child, which returns the overlapping node; the caller does not return it.
\<close>

theorem Find_drops_recursive_result:
  "run [Ins 5 6 ''a'', Ins 10 20 ''b''] Null
     = Inr (Node \<lparr>lo = 5, hi = 6\<rparr> ''a'' 20 1 Null (Node \<lparr>lo = 10, hi = 20\<rparr> ''b'' 20 0 Null Null))
   \<and> Find_rec 10 20 (Node \<lparr>lo = 10, hi = 20\<rparr> ''b'' 20 0 Null Null)
       = Inr (Node \<lparr>lo = 10, hi = 20\<rparr> ''b'' 20 0 Null Null)
   \<and> Find 10 20 (Node \<lparr>lo = 5, hi = 6\<rparr> ''a'' 20 1 Null
                      (Node \<lparr>lo = 10, hi = 20\<rparr> ''b'' 20 0 Null Null))
       = Inl MissingReturn"
  by (simp add: Insert_def Insert_unwind_def Balance_def Find_def)

section \<open>Insert, Find and Delete in sequence\<close>

text \<open>
  C3, at the inputs where it fails, all with \<open>lo < hi\<close>.
  \<^item> Insert \<open>[5, 6)\<close>, then insert \<open>[1, 2)\<close> and query \<open>(1, 2)\<close>: the root misses, its
    left child's cached maximum 2 is not less than 1, so \<^verbatim>\<open>Find\<close> calls itself on the left
    child, which returns the node just inserted; the caller has no return statement
    there and ends without a value.
  \<^item> Delete 1 again and repeat the query: the root misses, there is no left child, the
    call on the empty right subtree returns the null pointer, and the caller again ends
    without returning it.
  \<^item> On the map holding lo 2, 1, 3, 4, insert the stored \<open>[2, 3)\<close> and delete 2: the
    two-children branch of \<^verbatim>\<open>Delete\<close> deletes the node of lo 4 while it is linked, before
    any query is made.
\<close>

theorem Insert_then_Find_returns_nothing:
  "run [Ins 5 6 ''a'', Ins 1 2 ''v''] Null
     = Inr (Node \<lparr>lo = 5, hi = 6\<rparr> ''a'' 6 1 (Node \<lparr>lo = 1, hi = 2\<rparr> ''v'' 2 0 Null Null) Null)
   \<and> overlaps 1 2 \<lparr>lo = 1, hi = 2\<rparr>
   \<and> Find_rec 1 2 (Node \<lparr>lo = 1, hi = 2\<rparr> ''v'' 2 0 Null Null)
       = Inr (Node \<lparr>lo = 1, hi = 2\<rparr> ''v'' 2 0 Null Null)
   \<and> Find 1 2 (Node \<lparr>lo = 5, hi = 6\<rparr> ''a'' 6 1
                    (Node \<lparr>lo = 1, hi = 2\<rparr> ''v'' 2 0 Null Null) Null)
       = Inl MissingReturn
   \<and> run [Ins 5 6 ''a'', Ins 1 2 ''v'', Del 1] Null
       = Inr (Node \<lparr>lo = 5, hi = 6\<rparr> ''a'' 6 0 Null Null)
   \<and> \<not> overlaps 1 2 \<lparr>lo = 5, hi = 6\<rparr>
   \<and> Find 1 2 (Node \<lparr>lo = 5, hi = 6\<rparr> ''a'' 6 0 Null Null) = Inl MissingReturn
   \<and> run [Ins 2 3 ''a'', Ins 1 2 ''b'', Ins 3 4 ''c'', Ins 4 5 ''d'', Ins 2 3 ''a'', Del 2] Null
       = Inl DestroyedReachable"
  by code_simp

section \<open>Deleting a node with two children\<close>

text \<open>
  The two models on one input: after four insertions the store holds, from the root
  pointer down, the tree that the value-level run returns.
\<close>

lemma store_matches_tree:
  "run_h 10 [Ins 2 3 ''a'', Ins 1 2 ''b'', Ins 3 4 ''c'', Ins 4 5 ''d''] empty_heap
     = Inr ((),
         \<lparr>objs =
            [Some \<lparr>n_key = \<lparr>lo = 2, hi = 3\<rparr>, n_val = ''a'', n_max = 5, n_height = 2,
                    n_left = Some 1, n_right = Some 2\<rparr>,
             Some \<lparr>n_key = \<lparr>lo = 1, hi = 2\<rparr>, n_val = ''b'', n_max = 2, n_height = 0,
                    n_left = None, n_right = None\<rparr>,
             Some \<lparr>n_key = \<lparr>lo = 3, hi = 4\<rparr>, n_val = ''c'', n_max = 5, n_height = 1,
                    n_left = None, n_right = Some 3\<rparr>,
             Some \<lparr>n_key = \<lparr>lo = 4, hi = 5\<rparr>, n_val = ''d'', n_max = 5, n_height = 0,
                    n_left = None, n_right = None\<rparr>],
          m_pRoot = Some 0\<rparr>)"
  "tree_at 10
     \<lparr>objs =
        [Some \<lparr>n_key = \<lparr>lo = 2, hi = 3\<rparr>, n_val = ''a'', n_max = 5, n_height = 2,
                n_left = Some 1, n_right = Some 2\<rparr>,
         Some \<lparr>n_key = \<lparr>lo = 1, hi = 2\<rparr>, n_val = ''b'', n_max = 2, n_height = 0,
                n_left = None, n_right = None\<rparr>,
         Some \<lparr>n_key = \<lparr>lo = 3, hi = 4\<rparr>, n_val = ''c'', n_max = 5, n_height = 1,
                n_left = None, n_right = Some 3\<rparr>,
         Some \<lparr>n_key = \<lparr>lo = 4, hi = 5\<rparr>, n_val = ''d'', n_max = 5, n_height = 0,
                n_left = None, n_right = None\<rparr>],
      m_pRoot = Some 0\<rparr> (Some 0)
     = Some (Node \<lparr>lo = 2, hi = 3\<rparr> ''a'' 5 2
               (Node \<lparr>lo = 1, hi = 2\<rparr> ''b'' 2 0 Null Null)
               (Node \<lparr>lo = 3, hi = 4\<rparr> ''c'' 5 1 Null
                  (Node \<lparr>lo = 4, hi = 5\<rparr> ''d'' 5 0 Null Null)))"
  "run [Ins 2 3 ''a'', Ins 1 2 ''b'', Ins 3 4 ''c'', Ins 4 5 ''d''] Null
     = Inr (Node \<lparr>lo = 2, hi = 3\<rparr> ''a'' 5 2
              (Node \<lparr>lo = 1, hi = 2\<rparr> ''b'' 2 0 Null Null)
              (Node \<lparr>lo = 3, hi = 4\<rparr> ''c'' 5 1 Null
                 (Node \<lparr>lo = 4, hi = 5\<rparr> ''d'' 5 0 Null Null)))"
  by code_simp+

text \<open>
  C9, at the input where it fails. Insert lo 2, 1, 3, 4 (addresses 0, 1, 2, 3) and delete 2.
  The root has two children and its successor, the node with lo 3 at address 2, has the
  right child at address 3. \<^verbatim>\<open>auto min = *FindMinimum(...)\<close> copies the successor, and the
  copy's \<^verbatim>\<open>right\<close> is a second \<^verbatim>\<open>unique_ptr\<close> holding address 3. The recursive
  \<^verbatim>\<open>Delete\<close> moves address 3 into the root's right pointer and deletes the object at 2.
  At the end of the block the copy is destroyed and deletes the object at 3. The next
  statement, \<^verbatim>\<open>Balance(node)\<close>, reads the height of the root's right child, a deleted
  object. In the store at that moment the root pointer holds 0, the object at 0 has
  \<open>n_right = Some 3\<close>, and there is no object at 3.
\<close>

theorem Delete_destroys_reachable_node:
  "run_h 10 [Ins 2 3 ''a'', Ins 1 2 ''b'', Ins 3 4 ''c'', Ins 4 5 ''d'', Del 2] empty_heap
     = Inl (DeletedObject 3,
         \<lparr>objs =
            [Some \<lparr>n_key = \<lparr>lo = 3, hi = 4\<rparr>, n_val = ''c'', n_max = 5, n_height = 2,
                    n_left = Some 1, n_right = Some 3\<rparr>,
             Some \<lparr>n_key = \<lparr>lo = 1, hi = 2\<rparr>, n_val = ''b'', n_max = 2, n_height = 0,
                    n_left = None, n_right = None\<rparr>,
             None, None],
          m_pRoot = Some 0\<rparr>)"
  by code_simp

text \<open>
  C6, at the input where it fails. Eight insertions build the tree with root 50, whose
  left child 20 has the children 10 and 30, and 30 has the right child 40 (address 7).
  Deleting 20 copies the successor 30 into the node of 20 and deletes the successor's
  node (address 4), as the claim says, and then also deletes the node of 40: the entry
  with lo 40 is lost although only lo 20 was to be removed. The value-level model marks
  the same run.
\<close>

theorem Delete_two_children_loses_entry:
  "run_h 10 [Ins 50 55 ''a'', Ins 20 25 ''b'', Ins 70 75 ''c'', Ins 10 15 ''d'',
             Ins 30 35 ''e'', Ins 60 65 ''f'', Ins 80 85 ''g'', Ins 40 45 ''h'', Del 20] empty_heap
     = Inl (DeletedObject 7,
         \<lparr>objs =
            [Some \<lparr>n_key = \<lparr>lo = 50, hi = 55\<rparr>, n_val = ''a'', n_max = 85, n_height = 3,
                    n_left = Some 1, n_right = Some 2\<rparr>,
             Some \<lparr>n_key = \<lparr>lo = 30, hi = 35\<rparr>, n_val = ''e'', n_max = 45, n_height = 2,
                    n_left = Some 3, n_right = Some 7\<rparr>,
             Some \<lparr>n_key = \<lparr>lo = 70, hi = 75\<rparr>, n_val = ''c'', n_max = 85, n_height = 1,
                    n_left = Some 5, n_right = Some 6\<rparr>,
             Some \<lparr>n_key = \<lparr>lo = 10, hi = 15\<rparr>, n_val = ''d'', n_max = 15, n_height = 0,
                    n_left = None, n_right = None\<rparr>,
             None,
             Some \<lparr>n_key = \<lparr>lo = 60, hi = 65\<rparr>, n_val = ''f'', n_max = 65, n_height = 0,
                    n_left = None, n_right = None\<rparr>,
             Some \<lparr>n_key = \<lparr>lo = 80, hi = 85\<rparr>, n_val = ''g'', n_max = 85, n_height = 0,
                    n_left = None, n_right = None\<rparr>,
             None],
          m_pRoot = Some 0\<rparr>)
   \<and> run [Ins 50 55 ''a'', Ins 20 25 ''b'', Ins 70 75 ''c'', Ins 10 15 ''d'',
           Ins 30 35 ''e'', Ins 60 65 ''f'', Ins 80 85 ''g'', Ins 40 45 ''h'', Del 20] Null
       = Inl DestroyedReachable"
  by code_simp

text \<open>
  C1, at the input where it fails. Insert lo 10, 5, 15, 20 and delete 10: the deletion
  leaves the root's right pointer on a deleted object, and the balance factor that
  \<^verbatim>\<open>Delete\<close> computes next for the root is read from it. No tree is left whose nodes could
  all satisfy the invariants.
\<close>

theorem Delete_leaves_dangling_child:
  "run [Ins 10 11 ''a'', Ins 5 6 ''b'', Ins 15 16 ''c'', Ins 20 21 ''d''] Null
     = Inr (Node \<lparr>lo = 10, hi = 11\<rparr> ''a'' 21 2
              (Node \<lparr>lo = 5, hi = 6\<rparr> ''b'' 6 0 Null Null)
              (Node \<lparr>lo = 15, hi = 16\<rparr> ''c'' 21 1 Null
                 (Node \<lparr>lo = 20, hi = 21\<rparr> ''d'' 21 0 Null Null)))
   \<and> run [Ins 10 11 ''a'', Ins 5 6 ''b'', Ins 15 16 ''c'', Ins 20 21 ''d'', Del 10] Null
       = Inl DestroyedReachable
   \<and> run_h 10 [Ins 10 11 ''a'', Ins 5 6 ''b'', Ins 15 16 ''c'', Ins 20 21 ''d'', Del 10] empty_heap
       = Inl (DeletedObject 3,
           \<lparr>objs =
              [Some \<lparr>n_key = \<lparr>lo = 15, hi = 16\<rparr>, n_val = ''c'', n_max = 21, n_height = 2,
                      n_left = Some 1, n_right = Some 3\<rparr>,
               Some \<lparr>n_key = \<lparr>lo = 5, hi = 6\<rparr>, n_val = ''b'', n_max = 6, n_height = 0,
                      n_left = None, n_right = None\<rparr>,
               None, None],
            m_pRoot = Some 0\<rparr>)"
  by code_simp

end
